theory Spec2Isabelle
  imports Complex_Main
begin

section \<open>Port utilities of \<^verbatim>\<open>src/node/network/index.ts\<close>\<close>

text \<open>
  The module offers five asynchronous operations on TCP ports. Everything they do beyond
  computing a value is made explicit here:
  \<^item> the runtime and the network are a \<^emph>\<open>world\<close>: whether the runtime is Node.js, what the
    n-th connection attempt of \<^verbatim>\<open>is-port-reachable\<close> answers and how long it takes to
    settle, given the port, the host and the timeout handed to it, and how long the n-th
    timer of \<^verbatim>\<open>setTimeout\<close> takes to fire, given the delay handed to it;
  \<^item> the effects of a call are a record that is passed through: the connection attempts
    made, the warnings written with \<^verbatim>\<open>console.warn\<close>, the number of clock readings, the
    delays handed to \<^verbatim>\<open>setTimeout\<close>, the wall clock, and a log of the ports the
    single-port probe \<^verbatim>\<open>isPortInUse\<close> was invoked on;
  \<^item> time passes while a connection attempt or a timer is awaited, and only then: the
    code itself takes no time. \<^verbatim>\<open>Date.now()\<close> reads the clock of the effects;
  \<^item> a thrown exception (a rejected promise) is the left summand of the result.

  JavaScript numbers are modelled by the integers: ports and millisecond values are
  integral in every documented use, and on them the test \<^verbatim>\<open>Number.isInteger\<close> of the
  source always succeeds. The one exception is \<^verbatim>\<open>maxTries\<close>: the source compares the
  attempt count with it as it is given, without validating it, so it is a rational and
  need not be integral. NaN and the infinities are outside the model.
\<close>

subsection \<open>Data\<close>

type_synonym number = int

record PortCheckOptions =
  host :: "string option"
  timeout :: "number option"

record FindPortOptions = PortCheckOptions +
  startPort :: "number option"
  endPort :: "number option"
  maxTries :: "rat option"

record WaitOptions = PortCheckOptions +
  pollInterval :: "number option"
  overallTimeout :: "number option"

datatype target_state = Available | InUse

text \<open>
  The message of a \<^verbatim>\<open>PortError\<close> is a template string; the model keeps the template and
  the values interpolated into it. The constructor \<open>PortError\<close> carries the message and
  the optional fields \<^verbatim>\<open>port\<close> and \<^verbatim>\<open>host\<close> of the class.
\<close>

datatype message =
    InvalidPortNumber number
  | FailedToCheck number string string
  | StartGreaterThanEnd number number
  | NoAvailablePort number number number
  | TimeoutWaiting number target_state number

datatype error =
    EnvironmentError
  | PortError message "number option" "string option"

text \<open>What a rejected \<^verbatim>\<open>isPortReachable\<close> promise carries: an \<^verbatim>\<open>Error\<close> or anything else.\<close>

datatype thrown = JsError string | NonError

record world =
  isNodeEnvironment :: bool
  isPortReachable :: "nat \<Rightarrow> number \<Rightarrow> string \<Rightarrow> number \<Rightarrow> thrown + bool"
  probeTime :: "nat \<Rightarrow> number \<Rightarrow> string \<Rightarrow> number \<Rightarrow> number"
  timerTime :: "nat \<Rightarrow> number \<Rightarrow> number"

record effects =
  probed :: "number list"
  connections :: "(number \<times> string \<times> number) list"
  warnings :: "(number \<times> error) list"
  clockReads :: nat
  sleeps :: "number list"
  now :: number

definition noEffects :: effects where
  "noEffects = \<lparr>probed = [], connections = [], warnings = [], clockReads = 0, sleeps = [],
     now = 0\<rparr>"

subsection \<open>Helpers\<close>

text \<open>A destructuring default: \<^verbatim>\<open>const { host = 'localhost' } = options\<close>.\<close>

definition orDefault :: "'a \<Rightarrow> 'a option \<Rightarrow> 'a" where
  "orDefault d x = (case x of None \<Rightarrow> d | Some v \<Rightarrow> v)"

text \<open>\<^verbatim>\<open>error instanceof Error ? error.message : 'Unknown error'\<close>\<close>

definition errorMessage :: "thrown \<Rightarrow> string" where
  "errorMessage e = (case e of JsError m \<Rightarrow> m | NonError \<Rightarrow> ''Unknown error'')"

definition console_warn :: "number \<Rightarrow> error \<Rightarrow> effects \<Rightarrow> effects" where
  "console_warn port e st = st\<lparr>warnings := warnings st @ [(port, e)]\<rparr>"

text \<open>
  \<^verbatim>\<open>await new Promise(resolve => setTimeout(resolve, delay))\<close>: the delay is logged and the
  clock moves on by the time the world takes to fire a timer of this delay.
\<close>

definition setTimeout :: "world \<Rightarrow> number \<Rightarrow> effects \<Rightarrow> effects" where
  "setTimeout w delay st =
     st\<lparr>sleeps := sleeps st @ [delay], now := now st + timerTime w (length (sleeps st)) delay\<rparr>"

text \<open>
  Modelled from the spec: \<^verbatim>\<open>assertNodeEnvironment\<close> of \<^verbatim>\<open>universal/utils\<close>, which is not
  among the sources. The spec describes it as a capability guard evaluated at the start
  of an environment-restricted operation, raising a typed environment error outside a
  Node.js runtime.
\<close>

definition assertNodeEnvironment :: "world \<Rightarrow> error + unit" where
  "assertNodeEnvironment w = (if isNodeEnvironment w then Inr () else Inl EnvironmentError)"

subsection \<open>\<^verbatim>\<open>validatePort\<close>\<close>

text \<open>
  The source tests \<^verbatim>\<open>!Number.isInteger(port) || port < 1 || port > 65535\<close>. Every number
  of the model is an integer, so the first disjunct is false and only the range test is
  left.
\<close>

definition validatePort :: "number \<Rightarrow> error + unit" where
  "validatePort port =
     (if port < 1 \<or> port > 65535
      then Inl (PortError (InvalidPortNumber port) (Some port) None)
      else Inr ())"

subsection \<open>\<^verbatim>\<open>isPortInUse\<close> and \<^verbatim>\<open>isPortAvailable\<close>\<close>

definition isPortInUse ::
  "world \<Rightarrow> number \<Rightarrow> 'a PortCheckOptions_scheme \<Rightarrow> effects \<Rightarrow> (error + bool) \<times> effects" where
  "isPortInUse w port options st0 =
     (let st = st0\<lparr>probed := probed st0 @ [port]\<rparr> in
      case assertNodeEnvironment w of
        Inl e \<Rightarrow> (Inl e, st)
      | Inr _ \<Rightarrow>
         (case validatePort port of
            Inl e \<Rightarrow> (Inl e, st)
          | Inr _ \<Rightarrow>
             (let h = orDefault ''localhost'' (host options);
                  tmo = orDefault 5000 (timeout options);
                  st' = st\<lparr>connections := connections st @ [(port, h, tmo)],
                          now := now st + probeTime w (length (connections st)) port h tmo\<rparr>
              in case isPortReachable w (length (connections st)) port h tmo of
                   Inr reachable \<Rightarrow> (Inr reachable, st')
                 | Inl err \<Rightarrow>
                     (Inl (PortError (FailedToCheck port h (errorMessage err))
                             (Some port) (Some h)), st'))))"

definition isPortAvailable ::
  "world \<Rightarrow> number \<Rightarrow> 'a PortCheckOptions_scheme \<Rightarrow> effects \<Rightarrow> (error + bool) \<times> effects" where
  "isPortAvailable w port options st =
     (case isPortInUse w port options st of
        (Inr inUse, st') \<Rightarrow> (Inr (\<not> inUse), st')
      | (Inl e, st') \<Rightarrow> (Inl e, st'))"

subsection \<open>\<^verbatim>\<open>findAvailablePort\<close>\<close>

text \<open>
  The \<^verbatim>\<open>while\<close> loop with its two cursors; the \<^verbatim>\<open>throw\<close> after the loop is the
  \<open>else\<close> branch.
\<close>

function findLoop ::
  "world \<Rightarrow> number \<Rightarrow> number \<Rightarrow> rat \<Rightarrow> string \<Rightarrow> number \<Rightarrow> number \<Rightarrow> number \<Rightarrow> effects
     \<Rightarrow> (error + number) \<times> effects" where
  "findLoop w startP endP tries h tmo currentPort attempts st =
     (if currentPort \<le> endP \<and> of_int attempts < tries then
        (case isPortAvailable w currentPort \<lparr>host = Some h, timeout = Some tmo\<rparr> st of
           (Inr available, st') \<Rightarrow>
              if available then (Inr currentPort, st')
              else findLoop w startP endP tries h tmo (currentPort + 1) (attempts + 1) st'
         | (Inl e, st') \<Rightarrow>
              findLoop w startP endP tries h tmo (currentPort + 1) (attempts + 1)
                (console_warn currentPort e st'))
      else (Inl (PortError (NoAvailablePort startP endP attempts) None (Some h)), st))"
  by pat_completeness auto
termination
  by (relation "measure (\<lambda>(w, startP, endP, tries, h, tmo, currentPort, attempts, st).
        nat (endP + 1 - currentPort))") auto

definition findAvailablePort ::
  "world \<Rightarrow> 'a FindPortOptions_scheme \<Rightarrow> effects \<Rightarrow> (error + number) \<times> effects" where
  "findAvailablePort w options st =
     (let startP = orDefault 3000 (startPort options);
          endP = orDefault 65535 (endPort options);
          tries = orDefault 100 (maxTries options);
          h = orDefault ''localhost'' (host options);
          tmo = orDefault 5000 (timeout options)
      in case validatePort startP of
           Inl e \<Rightarrow> (Inl e, st)
         | Inr _ \<Rightarrow>
            (case validatePort endP of
               Inl e \<Rightarrow> (Inl e, st)
             | Inr _ \<Rightarrow>
                if startP > endP
                then (Inl (PortError (StartGreaterThanEnd startP endP) None None), st)
                else findLoop w startP endP tries h tmo startP 0 st))"

subsection \<open>\<^verbatim>\<open>checkMultiplePorts\<close>\<close>

text \<open>\<^verbatim>\<open>ports.forEach(validatePort)\<close>: the first invalid port throws.\<close>

fun forEach_validatePort :: "number list \<Rightarrow> error + unit" where
  "forEach_validatePort [] = Inr ()"
| "forEach_validatePort (port # ports) =
     (case validatePort port of
        Inl e \<Rightarrow> Inl e
      | Inr _ \<Rightarrow> forEach_validatePort ports)"

text \<open>
  \<^verbatim>\<open>ports.map(async (port) => ...)\<close> followed by \<^verbatim>\<open>Promise.all\<close>. Each callback runs up to
  its connection attempt as soon as it is created, so the attempts are made in the order
  of the array, and \<^verbatim>\<open>Promise.all\<close> returns the results in that order as well. The
  checks run concurrently: each starts at the time the batch starts, and the batch has
  settled when the last of them has. The order in which concurrent checks write their
  warnings is not modelled: the log has them in the order of the array.
\<close>

fun checks ::
  "world \<Rightarrow> number list \<Rightarrow> 'a PortCheckOptions_scheme \<Rightarrow> effects
     \<Rightarrow> (number \<times> bool) list \<times> effects" where
  "checks w [] options st = ([], st)"
| "checks w (port # ports) options st =
     (case isPortAvailable w port options st of
        (Inr available, st') \<Rightarrow>
           (case checks w ports options (st'\<lparr>now := now st\<rparr>) of
              (rs, st'') \<Rightarrow> ((port, available) # rs, st''\<lparr>now := max (now st') (now st'')\<rparr>))
      | (Inl e, st') \<Rightarrow>
           (case checks w ports options (console_warn port e st'\<lparr>now := now st\<rparr>) of
              (rs, st'') \<Rightarrow> ((port, False) # rs, st''\<lparr>now := max (now st') (now st'')\<rparr>)))"

text \<open>\<^verbatim>\<open>checkResults.forEach(({ port, available }) => results.set(port, available))\<close>\<close>

definition setAll :: "(number \<times> bool) list \<Rightarrow> (number \<rightharpoonup> bool) \<Rightarrow> (number \<rightharpoonup> bool)" where
  "setAll checkResults results = foldl (\<lambda>m (port, available). m(port \<mapsto> available)) results checkResults"

definition checkMultiplePorts ::
  "world \<Rightarrow> number list \<Rightarrow> 'a PortCheckOptions_scheme \<Rightarrow> effects
     \<Rightarrow> (error + (number \<rightharpoonup> bool)) \<times> effects" where
  "checkMultiplePorts w ports options st =
     (case forEach_validatePort ports of
        Inl e \<Rightarrow> (Inl e, st)
      | Inr _ \<Rightarrow>
         (case checks w ports options st of
            (checkResults, st') \<Rightarrow> (Inr (setAll checkResults Map.empty), st')))"

subsection \<open>\<^verbatim>\<open>waitForPort\<close>\<close>

text \<open>
  The polling loop is bounded by the clock only, so it need not return: the result
  \<open>None\<close> stands for a loop that runs forever. Every evaluation of the loop condition
  reads the clock once; the clock moves while the probe and the timer are awaited.
\<close>

partial_function (option) waitLoop ::
  "world \<Rightarrow> number \<Rightarrow> target_state \<Rightarrow> string \<Rightarrow> number \<Rightarrow> number \<Rightarrow> number \<Rightarrow> number \<Rightarrow> effects
     \<Rightarrow> ((error + unit) \<times> effects) option" where
  "waitLoop w port targetState h tmo poll overall startTime st =
     (if now st - startTime < overall then
        (case isPortInUse w port \<lparr>host = Some h, timeout = Some tmo\<rparr>
                (st\<lparr>clockReads := Suc (clockReads st)\<rparr>) of
           (Inr inUse, st') \<Rightarrow>
              if (if inUse then InUse else Available) = targetState then Some (Inr (), st')
              else waitLoop w port targetState h tmo poll overall startTime
                     (setTimeout w poll st')
         | (Inl e, st') \<Rightarrow>
              waitLoop w port targetState h tmo poll overall startTime
                (setTimeout w poll (console_warn port e st')))
      else Some (Inl (PortError (TimeoutWaiting port targetState overall) (Some port) (Some h)),
                 st\<lparr>clockReads := Suc (clockReads st)\<rparr>))"

definition waitForPort ::
  "world \<Rightarrow> number \<Rightarrow> target_state \<Rightarrow> 'a WaitOptions_scheme \<Rightarrow> effects
     \<Rightarrow> ((error + unit) \<times> effects) option" where
  "waitForPort w port targetState options st =
     (case validatePort port of
        Inl e \<Rightarrow> Some (Inl e, st)
      | Inr _ \<Rightarrow>
         (let h = orDefault ''localhost'' (host options);
              tmo = orDefault 5000 (timeout options);
              poll = orDefault 1000 (pollInterval options);
              overall = orDefault 30000 (overallTimeout options);
              startTime = now st
          in waitLoop w port targetState h tmo poll overall startTime
               (st\<lparr>clockReads := Suc (clockReads st)\<rparr>)))"

subsection \<open>Notions used in the statements\<close>

text \<open>
  The number of iterations the scan loop makes from cursor \<open>c\<close> and attempt count \<open>a\<close> when
  no port is found free: the ports left up to the end port or the attempts left up to the
  cap, whichever is smaller. The test \<open>a < tries\<close> holds for the counts below the least
  integer that is not below \<open>tries\<close>.
\<close>

definition scanLength :: "number \<Rightarrow> rat \<Rightarrow> number \<Rightarrow> number \<Rightarrow> number" where
  "scanLength endP tries c a = max 0 (min (endP + 1 - c) (\<lceil>tries\<rceil> - a))"

text \<open>
  The states in which control reaches the head of the \<^verbatim>\<open>while\<close> loop of
  \<^verbatim>\<open>findAvailablePort\<close>, as a step relation: the loop is entered with the start port and
  zero attempts, and an iteration that does not return leads to the next head.
\<close>

inductive loopHead ::
  "world \<Rightarrow> number \<Rightarrow> number \<Rightarrow> rat \<Rightarrow> string \<Rightarrow> number \<Rightarrow> effects
     \<Rightarrow> number \<Rightarrow> number \<Rightarrow> effects \<Rightarrow> bool"
  for w startP endP tries h tmo st0 where
    enter: "loopHead w startP endP tries h tmo st0 startP 0 st0"
  | not_available:
      "loopHead w startP endP tries h tmo st0 currentPort attempts st \<Longrightarrow>
       currentPort \<le> endP \<and> of_int attempts < tries \<Longrightarrow>
       isPortAvailable w currentPort \<lparr>host = Some h, timeout = Some tmo\<rparr> st = (Inr False, st') \<Longrightarrow>
       loopHead w startP endP tries h tmo st0 (currentPort + 1) (attempts + 1) st'"
  | caught:
      "loopHead w startP endP tries h tmo st0 currentPort attempts st \<Longrightarrow>
       currentPort \<le> endP \<and> of_int attempts < tries \<Longrightarrow>
       isPortAvailable w currentPort \<lparr>host = Some h, timeout = Some tmo\<rparr> st = (Inl e, st') \<Longrightarrow>
       loopHead w startP endP tries h tmo st0 (currentPort + 1) (attempts + 1)
         (console_warn currentPort e st')"

text \<open>
  What one check of the batch records for a port: available exactly when the runtime is
  Node.js and the connection attempt with index \<open>k\<close> resolves to "not reachable".
\<close>

definition observedAvailable :: "world \<Rightarrow> 'a PortCheckOptions_scheme \<Rightarrow> nat \<Rightarrow> number \<Rightarrow> bool" where
  "observedAvailable w options k port =
     (isNodeEnvironment w \<and>
      isPortReachable w k port (orDefault ''localhost'' (host options))
        (orDefault 5000 (timeout options)) = Inr False)"

text \<open>
  What holds of a result \<open>y\<close> of the polling loop entered in state \<open>st\<close>: a success comes
  straight after a connection attempt that observed the target state; a failure is the
  timeout error, raised when the clock has reached the deadline, and, in a world whose
  connection attempts settle no later than the timeout handed to them and whose timers
  fire no later than the delay handed to them, no later than the time of entry or the
  deadline plus one poll interval plus one probe timeout.
\<close>

definition waitLoopPost ::
  "world \<Rightarrow> number \<Rightarrow> target_state \<Rightarrow> string \<Rightarrow> number \<Rightarrow> number \<Rightarrow> number \<Rightarrow> number \<Rightarrow> effects
     \<Rightarrow> (error + unit) \<times> effects \<Rightarrow> bool" where
  "waitLoopPost w port targetState h tmo poll overall startTime st y =
     ((\<forall>st'. y = (Inr (), st') \<longrightarrow>
            isNodeEnvironment w \<and> connections st' \<noteq> []
          \<and> last (connections st') = (port, h, tmo)
          \<and> isPortReachable w (length (connections st') - 1) port h tmo
              = Inr (targetState = InUse))
       \<and> (\<forall>e st'. y = (Inl e, st') \<longrightarrow>
            e = PortError (TimeoutWaiting port targetState overall) (Some port) (Some h)
          \<and> overall \<le> now st' - startTime
          \<and> ((\<forall>k p a t. probeTime w k p a t \<le> max 0 t) \<and> (\<forall>k d. timerTime w k d \<le> max 0 d)
               \<longrightarrow> now st' - startTime
                     \<le> max (now st - startTime) (overall + max 0 poll + max 0 tmo))))"

subsection \<open>Worlds for the concrete runs\<close>

text \<open>
  A Node.js runtime in which the connection to port 8000 fails with an error, port 8001
  accepts connections and every other port refuses them. A connection attempt settles
  after 20 ms, or at its timeout if that is earlier; a timer fires exactly at its delay.
\<close>

definition scanWorld :: world where
  "scanWorld = \<lparr>isNodeEnvironment = True,
     isPortReachable = (\<lambda>k port h tmo.
        if port = 8000 then Inl (JsError ''EACCES'')
        else if port = 8001 then Inr True else Inr False),
     probeTime = (\<lambda>k port h tmo. min 20 (max 0 tmo)),
     timerTime = (\<lambda>k delay. max 0 delay)\<rparr>"

text \<open>
  A Node.js runtime in which port 3000 refuses the first connection attempt and accepts
  from the second on, and every other port accepts connections. A connection attempt
  settles after 200 ms, or at its timeout if that is earlier; a timer fires exactly at
  its delay.
\<close>

definition pollWorld :: world where
  "pollWorld = \<lparr>isNodeEnvironment = True,
     isPortReachable = (\<lambda>k port h tmo. if port = 3000 then Inr (1 \<le> k) else Inr True),
     probeTime = (\<lambda>k port h tmo. min 200 (max 0 tmo)),
     timerTime = (\<lambda>k delay. max 0 delay)\<rparr>"

text \<open>A runtime that is not Node.js.\<close>

definition browserWorld :: world where
  "browserWorld = \<lparr>isNodeEnvironment = False,
     isPortReachable = (\<lambda>k port h tmo. Inr False),
     probeTime = (\<lambda>k port h tmo. min 200 (max 0 tmo)),
     timerTime = (\<lambda>k delay. max 0 delay)\<rparr>"

declare findLoop.simps [simp del]

section \<open>Single steps\<close>

text \<open>
  What one call of the single-port probe does, by runtime and by validity of the port.
\<close>

lemma isPortInUse_outside_node:
  "\<not> isNodeEnvironment w \<Longrightarrow>
   isPortInUse w p opts st = (Inl EnvironmentError, st\<lparr>probed := probed st @ [p]\<rparr>)"
  by (simp add: isPortInUse_def assertNodeEnvironment_def)

lemma isPortAvailable_outside_node:
  "\<not> isNodeEnvironment w \<Longrightarrow>
   isPortAvailable w p opts st = (Inl EnvironmentError, st\<lparr>probed := probed st @ [p]\<rparr>)"
  by (simp add: isPortAvailable_def isPortInUse_def assertNodeEnvironment_def)

lemma isPortInUse_node:
  "isNodeEnvironment w \<Longrightarrow> 1 \<le> p \<Longrightarrow> p \<le> 65535 \<Longrightarrow>
   isPortInUse w p opts st =
     (case isPortReachable w (length (connections st)) p
             (orDefault ''localhost'' (host opts)) (orDefault 5000 (timeout opts)) of
        Inr reachable \<Rightarrow> Inr reachable
      | Inl err \<Rightarrow> Inl (PortError (FailedToCheck p (orDefault ''localhost'' (host opts))
                           (errorMessage err)) (Some p) (Some (orDefault ''localhost'' (host opts)))),
      st\<lparr>probed := probed st @ [p],
         connections := connections st @
            [(p, orDefault ''localhost'' (host opts), orDefault 5000 (timeout opts))],
         now := now st + probeTime w (length (connections st)) p
                  (orDefault ''localhost'' (host opts)) (orDefault 5000 (timeout opts))\<rparr>)"
  by (simp add: isPortInUse_def assertNodeEnvironment_def validatePort_def Let_def
           split: sum.splits)

lemma isPortInUse_invalid:
  "isNodeEnvironment w \<Longrightarrow> p < 1 \<or> 65535 < p \<Longrightarrow>
   isPortInUse w p opts st =
     (Inl (PortError (InvalidPortNumber p) (Some p) None), st\<lparr>probed := probed st @ [p]\<rparr>)"
  by (simp add: isPortInUse_def assertNodeEnvironment_def validatePort_def)

lemma isPortAvailable_node:
  "isNodeEnvironment w \<Longrightarrow> 1 \<le> p \<Longrightarrow> p \<le> 65535 \<Longrightarrow>
   isPortAvailable w p opts st =
     (case isPortReachable w (length (connections st)) p
             (orDefault ''localhost'' (host opts)) (orDefault 5000 (timeout opts)) of
        Inr reachable \<Rightarrow> Inr (\<not> reachable)
      | Inl err \<Rightarrow> Inl (PortError (FailedToCheck p (orDefault ''localhost'' (host opts))
                           (errorMessage err)) (Some p) (Some (orDefault ''localhost'' (host opts)))),
      st\<lparr>probed := probed st @ [p],
         connections := connections st @
            [(p, orDefault ''localhost'' (host opts), orDefault 5000 (timeout opts))],
         now := now st + probeTime w (length (connections st)) p
                  (orDefault ''localhost'' (host opts)) (orDefault 5000 (timeout opts))\<rparr>)"
  by (simp add: isPortAvailable_def isPortInUse_node split: sum.splits)

lemma isPortInUse_Inr:
  assumes "isPortInUse w p \<lparr>host = Some h, timeout = Some tmo\<rparr> st = (Inr b, st')"
  shows "isNodeEnvironment w \<and> isPortReachable w (length (connections st)) p h tmo = Inr b
       \<and> st' = st\<lparr>probed := probed st @ [p], connections := connections st @ [(p, h, tmo)],
                   now := now st + probeTime w (length (connections st)) p h tmo\<rparr>"
  using assms
  by (auto simp: isPortInUse_def assertNodeEnvironment_def validatePort_def orDefault_def Let_def
           split: if_splits sum.splits)

lemma isPortInUse_clockReads:
  "clockReads (snd (isPortInUse w p opts st)) = clockReads st"
  by (simp add: isPortInUse_def assertNodeEnvironment_def validatePort_def Let_def
           split: sum.splits)

text \<open>The clock after a call of the probe: it has moved by the time of one connection
  attempt with the timeout of the options, or not at all.\<close>

lemma isPortInUse_now:
  "now (snd (isPortInUse w p opts st)) = now st
   \<or> now (snd (isPortInUse w p opts st))
       = now st + probeTime w (length (connections st)) p
                    (orDefault ''localhost'' (host opts)) (orDefault 5000 (timeout opts))"
  by (simp add: isPortInUse_def assertNodeEnvironment_def validatePort_def Let_def
           split: sum.splits)

lemma isPortInUse_sleeps:
  "sleeps (snd (isPortInUse w p opts st)) = sleeps st"
  by (simp add: isPortInUse_def assertNodeEnvironment_def validatePort_def Let_def
           split: sum.splits)

section \<open>The port-number validator\<close>

text \<open>
  C9. The validator accepts every integer from 1 to 65535 and rejects every other integer
  with a validation error (a \<open>PortError\<close> that names the port).
\<close>

theorem validatePort_accepts_exactly_1_to_65535:
  "validatePort p = (if 1 \<le> p \<and> p \<le> 65535 then Inr ()
                     else Inl (PortError (InvalidPortNumber p) (Some p) None))"
  by (simp add: validatePort_def not_le not_less)

theorem validatePort_accepts_exactly_1_to_65535_witness:
  "validatePort 1 = Inr () \<and> validatePort 65535 = Inr ()
   \<and> validatePort 0 = Inl (PortError (InvalidPortNumber 0) (Some 0) None)
   \<and> validatePort 65536 = Inl (PortError (InvalidPortNumber 65536) (Some 65536) None)"
  using validatePort_accepts_exactly_1_to_65535 [of 1]
    validatePort_accepts_exactly_1_to_65535 [of 65535]
    validatePort_accepts_exactly_1_to_65535 [of 0]
    validatePort_accepts_exactly_1_to_65535 [of 65536]
  by simp

section \<open>The negation\<close>

text \<open>
  C8. Whenever the probe completes without error, \<^verbatim>\<open>isPortAvailable\<close> returns the
  negation of what \<^verbatim>\<open>isPortInUse\<close> returns for the same port, options and probe outcome:
  a normal return of the one is the negated normal return of the other, with the same
  effects, and in a Node.js runtime with a valid port both are determined by what the
  connection attempt resolves to.
\<close>

theorem isPortAvailable_negates_isPortInUse:
  "(isPortInUse w port options st = (Inr inUse, st') \<longrightarrow>
      isPortAvailable w port options st = (Inr (\<not> inUse), st'))
   \<and> (isNodeEnvironment w \<and> 1 \<le> port \<and> port \<le> 65535
      \<and> isPortReachable w (length (connections st)) port
           (orDefault ''localhost'' (host options)) (orDefault 5000 (timeout options))
         = Inr reachable \<longrightarrow>
      fst (isPortInUse w port options st) = Inr reachable
    \<and> fst (isPortAvailable w port options st) = Inr (\<not> reachable))"
  by (simp add: isPortAvailable_def isPortInUse_node)

theorem isPortAvailable_negates_isPortInUse_witness:
  "isPortInUse scanWorld 8001 \<lparr>host = None, timeout = Some 200\<rparr> noEffects
     = (Inr True, \<lparr>probed = [8001], connections = [(8001, ''localhost'', 200)],
                   warnings = [], clockReads = 0, sleeps = [], now = 20\<rparr>)
   \<and> isPortAvailable scanWorld 8001 \<lparr>host = None, timeout = Some 200\<rparr> noEffects
     = (Inr False, \<lparr>probed = [8001], connections = [(8001, ''localhost'', 200)],
                    warnings = [], clockReads = 0, sleeps = [], now = 20\<rparr>)
   \<and> isNodeEnvironment scanWorld \<and> (1::int) \<le> 8002 \<and> (8002::int) \<le> 65535
   \<and> isPortReachable scanWorld (length (connections noEffects)) 8002 ''localhost'' 5000
        = Inr False
   \<and> fst (isPortInUse scanWorld 8002 \<lparr>host = None, timeout = None\<rparr> noEffects) = Inr False
   \<and> fst (isPortAvailable scanWorld 8002 \<lparr>host = None, timeout = None\<rparr> noEffects) = Inr True"
proof -
  have use: "isPortInUse scanWorld 8001 \<lparr>host = None, timeout = Some 200\<rparr> noEffects
     = (Inr True, \<lparr>probed = [8001], connections = [(8001, ''localhost'', 200)],
                   warnings = [], clockReads = 0, sleeps = [], now = 20\<rparr>)"
    by (simp add: isPortInUse_def assertNodeEnvironment_def validatePort_def scanWorld_def
          noEffects_def orDefault_def Let_def)
  have pre: "isNodeEnvironment scanWorld \<and> (1::int) \<le> 8002 \<and> (8002::int) \<le> 65535
     \<and> isPortReachable scanWorld (length (connections noEffects)) 8002
          (orDefault ''localhost'' (host \<lparr>host = None, timeout = None\<rparr>))
          (orDefault 5000 (timeout \<lparr>host = None, timeout = None\<rparr>)) = Inr False"
    by (simp add: scanWorld_def)
  from isPortAvailable_negates_isPortInUse [THEN conjunct1, THEN mp, OF use]
    isPortAvailable_negates_isPortInUse [THEN conjunct2, THEN mp, OF pre] use pre
  show ?thesis by (simp add: orDefault_def)
qed

section \<open>The scan loop\<close>

lemma findLoop_stop:
  "\<not> (c \<le> E \<and> of_int a < M) \<Longrightarrow>
   findLoop w S E M h tmo c a st = (Inl (PortError (NoAvailablePort S E a) None (Some h)), st)"
  by (subst findLoop.simps) auto

lemma findLoop_outside_node:
  "\<not> isNodeEnvironment w \<Longrightarrow> c \<le> E \<Longrightarrow> of_int a < M \<Longrightarrow>
   findLoop w S E M h tmo c a st =
   findLoop w S E M h tmo (c + 1) (a + 1)
     (st\<lparr>probed := probed st @ [c], warnings := warnings st @ [(c, EnvironmentError)]\<rparr>)"
  by (subst findLoop.simps) (simp add: isPortAvailable_outside_node console_warn_def)

lemma findLoop_free:
  "isNodeEnvironment w \<Longrightarrow> 1 \<le> c \<Longrightarrow> c \<le> 65535 \<Longrightarrow> c \<le> E \<Longrightarrow> of_int a < M \<Longrightarrow>
   isPortReachable w (length (connections st)) c h tmo = Inr False \<Longrightarrow>
   findLoop w S E M h tmo c a st =
     (Inr c, st\<lparr>probed := probed st @ [c], connections := connections st @ [(c, h, tmo)],
                now := now st + probeTime w (length (connections st)) c h tmo\<rparr>)"
  by (subst findLoop.simps) (simp add: isPortAvailable_def isPortInUse_node orDefault_def)

lemma findLoop_not_free:
  "isNodeEnvironment w \<Longrightarrow> 1 \<le> c \<Longrightarrow> c \<le> 65535 \<Longrightarrow> c \<le> E \<Longrightarrow> of_int a < M \<Longrightarrow>
   isPortReachable w (length (connections st)) c h tmo \<noteq> Inr False \<Longrightarrow>
   \<exists>ws. findLoop w S E M h tmo c a st =
     findLoop w S E M h tmo (c + 1) (a + 1)
       (st\<lparr>probed := probed st @ [c], connections := connections st @ [(c, h, tmo)],
           now := now st + probeTime w (length (connections st)) c h tmo,
           warnings := warnings st @ ws\<rparr>)"
  apply (subst findLoop.simps)
  apply (cases "isPortReachable w (length (connections st)) c h tmo")
   apply (simp add: isPortAvailable_def isPortInUse_node orDefault_def console_warn_def)
   apply (rule exI[where x="[(c, PortError (FailedToCheck c h (errorMessage _)) (Some c) (Some h))]"])
   apply simp
  apply (simp add: isPortAvailable_def isPortInUse_node orDefault_def console_warn_def)
  apply (rule exI[where x="[]"])
  apply simp
  done

lemma findLoop_Inr:
  assumes "findLoop w S E M h tmo c a st = (Inr p, st')" and "1 \<le> c" and "E \<le> 65535"
  shows "isNodeEnvironment w \<and> c \<le> p \<and> p \<le> E \<and> of_int (a + (p - c)) < M
       \<and> probed st' = probed st @ [c..p]
       \<and> connections st' = connections st @ map (\<lambda>q. (q, h, tmo)) [c..p]
       \<and> sleeps st' = sleeps st \<and> clockReads st' = clockReads st
       \<and> isPortReachable w (length (connections st) + nat (p - c)) p h tmo = Inr False
       \<and> (\<forall>q. c \<le> q \<and> q < p \<longrightarrow>
             isPortReachable w (length (connections st) + nat (q - c)) q h tmo \<noteq> Inr False)"
  using assms
proof (induction "nat (E + 1 - c)" arbitrary: c a st)
  case 0
  then have "\<not> (c \<le> E \<and> of_int a < M)" by simp
  from findLoop_stop [OF this] "0.prems"(1) show ?case by simp
next
  case (Suc k)
  show ?case
  proof (cases "c \<le> E \<and> of_int a < M")
    case False
    from findLoop_stop [OF this] Suc.prems(1) show ?thesis by simp
  next
    case guard: True
    have k: "k = nat (E + 1 - (c + 1))" using Suc.hyps(2) by simp
    have c1: "1 \<le> c + 1" using Suc.prems(2) by simp
    have c65: "c \<le> 65535" using guard Suc.prems(3) by simp
    show ?thesis
    proof (cases "isNodeEnvironment w")
      case False
      from findLoop_outside_node [OF False, of c E a M S h tmo st] guard Suc.prems(1)
      have "findLoop w S E M h tmo (c + 1) (a + 1)
              (st\<lparr>probed := probed st @ [c], warnings := warnings st @ [(c, EnvironmentError)]\<rparr>)
            = (Inr p, st')" by simp
      from Suc.hyps(1) [OF k this c1 Suc.prems(3)] False show ?thesis by simp
    next
      case node: True
      show ?thesis
      proof (cases "isPortReachable w (length (connections st)) c h tmo = Inr False")
        case True
        from findLoop_free [OF node Suc.prems(2) c65 _ _ True, of E a M S] guard Suc.prems(1)
        have "p = c" and "st' = st\<lparr>probed := probed st @ [c],
                                   connections := connections st @ [(c, h, tmo)],
                                   now := now st + probeTime w (length (connections st)) c h tmo\<rparr>"
          by simp_all
        with node guard True show ?thesis by auto
      next
        case False
        from findLoop_not_free [OF node Suc.prems(2) c65 _ _ False, of E a M S] guard
        obtain ws where "findLoop w S E M h tmo c a st =
             findLoop w S E M h tmo (c + 1) (a + 1)
               (st\<lparr>probed := probed st @ [c], connections := connections st @ [(c, h, tmo)],
                   now := now st + probeTime w (length (connections st)) c h tmo,
                   warnings := warnings st @ ws\<rparr>)" (is "_ = findLoop _ _ _ _ _ _ _ _ ?st1")
          by blast
        with Suc.prems(1) have "findLoop w S E M h tmo (c + 1) (a + 1) ?st1 = (Inr p, st')"
          by simp
        from Suc.hyps(1) [OF k this c1 Suc.prems(3)]
        have ih: "c + 1 \<le> p" "p \<le> E" "of_int (a + 1 + (p - (c + 1))) < M"
          "probed st' = probed ?st1 @ [c + 1..p]"
          "connections st' = connections ?st1 @ map (\<lambda>q. (q, h, tmo)) [c + 1..p]"
          "sleeps st' = sleeps ?st1" "clockReads st' = clockReads ?st1"
          "isPortReachable w (length (connections ?st1) + nat (p - (c + 1))) p h tmo = Inr False"
          "\<forall>q. c + 1 \<le> q \<and> q < p \<longrightarrow>
             isPortReachable w (length (connections ?st1) + nat (q - (c + 1))) q h tmo \<noteq> Inr False"
          by blast+
        have up: "[c..p] = c # [c + 1..p]" using ih(1) by (simp add: upto_rec1)
        have idx: "\<And>q. c + 1 \<le> q \<Longrightarrow>
            length (connections ?st1) + nat (q - (c + 1)) = length (connections st) + nat (q - c)"
          by simp
        have free: "isPortReachable w (length (connections st) + nat (p - c)) p h tmo = Inr False"
          using ih(8) unfolding idx [OF ih(1)] .
        have others: "isPortReachable w (length (connections st) + nat (q - c)) q h tmo \<noteq> Inr False"
          if "c \<le> q" "q < p" for q
        proof (cases "q = c")
          case True
          with False show ?thesis by simp
        next
          case False
          with that have "c + 1 \<le> q" by simp
          from ih(9) this that(2)
          have "isPortReachable w (length (connections ?st1) + nat (q - (c + 1))) q h tmo \<noteq> Inr False"
            by blast
          then show ?thesis unfolding idx [OF \<open>c + 1 \<le> q\<close>] .
        qed
        from node ih(1,2,3,4,5,6,7) up free others show ?thesis by simp
      qed
    qed
  qed
qed

lemma scanLength_stop: "\<not> (c \<le> E \<and> of_int a < M) \<Longrightarrow> scanLength E M c a = 0"
  by (auto simp: scanLength_def less_ceiling_iff [symmetric])

lemma scanLength_step:
  "c \<le> E \<and> of_int a < M \<Longrightarrow> scanLength E M c a = 1 + scanLength E M (c + 1) (a + 1)"
  by (auto simp: scanLength_def less_ceiling_iff [symmetric])

lemma scanLength_nonneg: "0 \<le> scanLength E M c a"
  by (simp add: scanLength_def)

lemma findLoop_Inl:
  assumes "findLoop w S E M h tmo c a st = (Inl e, st')" and "1 \<le> c" and "E \<le> 65535"
  shows "e = PortError (NoAvailablePort S E (a + scanLength E M c a)) None (Some h)
       \<and> probed st' = probed st @ [c..c + scanLength E M c a - 1]
       \<and> connections st' = connections st @
            (if isNodeEnvironment w then map (\<lambda>q. (q, h, tmo)) [c..c + scanLength E M c a - 1]
             else [])
       \<and> sleeps st' = sleeps st \<and> clockReads st' = clockReads st
       \<and> (isNodeEnvironment w \<longrightarrow> (\<forall>q. c \<le> q \<and> q < c + scanLength E M c a \<longrightarrow>
             isPortReachable w (length (connections st) + nat (q - c)) q h tmo \<noteq> Inr False))"
  using assms
proof (induction "nat (E + 1 - c)" arbitrary: c a st)
  case 0
  then have stop: "\<not> (c \<le> E \<and> of_int a < M)" by simp
  from findLoop_stop [OF stop] "0.prems"(1) scanLength_stop [OF stop] show ?case by auto
next
  case (Suc k)
  show ?case
  proof (cases "c \<le> E \<and> of_int a < M")
    case False
    from findLoop_stop [OF False] Suc.prems(1) scanLength_stop [OF False] show ?thesis by auto
  next
    case guard: True
    have k: "k = nat (E + 1 - (c + 1))" using Suc.hyps(2) by simp
    have c1: "1 \<le> c + 1" using Suc.prems(2) by simp
    have c65: "c \<le> 65535" using guard Suc.prems(3) by simp
    define r where "r = scanLength E M (c + 1) (a + 1)"
    have rem: "scanLength E M c a = 1 + r" unfolding r_def by (rule scanLength_step [OF guard])
    have r0: "0 \<le> r" unfolding r_def by (rule scanLength_nonneg)
    have up: "[c..c + (1 + r) - 1] = c # [c + 1..c + 1 + r - 1]"
      using r0 by (simp add: upto_rec1)
    have idx: "\<And>q L. c + 1 \<le> q \<Longrightarrow> Suc L + nat (q - (c + 1)) = L + nat (q - c)"
      by simp
    show ?thesis
    proof (cases "isNodeEnvironment w")
      case False
      from findLoop_outside_node [OF False, of c E a M S h tmo st] guard Suc.prems(1)
      have "findLoop w S E M h tmo (c + 1) (a + 1)
              (st\<lparr>probed := probed st @ [c], warnings := warnings st @ [(c, EnvironmentError)]\<rparr>)
            = (Inl e, st')" by simp
      from Suc.hyps(1) [OF k this c1 Suc.prems(3)] False rem up show ?thesis
        by (simp add: r_def [symmetric])
    next
      case node: True
      show ?thesis
      proof (cases "isPortReachable w (length (connections st)) c h tmo = Inr False")
        case True
        from findLoop_free [OF node Suc.prems(2) c65 _ _ True, of E a M S] guard Suc.prems(1)
        show ?thesis by simp
      next
        case False
        from findLoop_not_free [OF node Suc.prems(2) c65 _ _ False, of E a M S] guard
        obtain ws where "findLoop w S E M h tmo c a st =
             findLoop w S E M h tmo (c + 1) (a + 1)
               (st\<lparr>probed := probed st @ [c], connections := connections st @ [(c, h, tmo)],
                   now := now st + probeTime w (length (connections st)) c h tmo,
                   warnings := warnings st @ ws\<rparr>)" (is "_ = findLoop _ _ _ _ _ _ _ _ ?st1")
          by blast
        with Suc.prems(1) have "findLoop w S E M h tmo (c + 1) (a + 1) ?st1 = (Inl e, st')"
          by simp
        from Suc.hyps(1) [OF k this c1 Suc.prems(3)] node
        have ih: "e = PortError (NoAvailablePort S E (a + 1 + r)) None (Some h)"
          "probed st' = probed ?st1 @ [c + 1..c + 1 + r - 1]"
          "connections st' = connections ?st1 @ map (\<lambda>q. (q, h, tmo)) [c + 1..c + 1 + r - 1]"
          "sleeps st' = sleeps ?st1" "clockReads st' = clockReads ?st1"
          "\<forall>q. c + 1 \<le> q \<and> q < c + 1 + r \<longrightarrow>
             isPortReachable w (length (connections ?st1) + nat (q - (c + 1))) q h tmo \<noteq> Inr False"
          unfolding r_def by simp_all
        have others: "isPortReachable w (length (connections st) + nat (q - c)) q h tmo \<noteq> Inr False"
          if "c \<le> q" "q < c + (1 + r)" for q
        proof (cases "q = c")
          case True
          with False show ?thesis by simp
        next
          case False
          with that have q: "c + 1 \<le> q" "q < c + 1 + r" by simp_all
          with ih(6)
          have "isPortReachable w (length (connections ?st1) + nat (q - (c + 1))) q h tmo \<noteq> Inr False"
            by blast
          then have "isPortReachable w (Suc (length (connections st)) + nat (q - (c + 1))) q h tmo
                       \<noteq> Inr False" by simp
          then show ?thesis unfolding idx [OF q(1)] .
        qed
        from node ih(1,2,3,4,5) others show ?thesis unfolding rem up by simp
      qed
    qed
  qed
qed

lemma findLoop_cases:
  obtains p st' where "findLoop w S E M h tmo c a st = (Inr p, st')"
  | e st' where "findLoop w S E M h tmo c a st = (Inl e, st')"
  by (cases "findLoop w S E M h tmo c a st") (metis sum.exhaust prod.collapse old.prod.exhaust)

lemma findLoop_Inl_iff:
  assumes "1 \<le> c" and "E \<le> 65535"
  shows "(\<exists>e. fst (findLoop w S E M h tmo c a st) = Inl e) \<longleftrightarrow>
         (isNodeEnvironment w \<longrightarrow> (\<forall>q. c \<le> q \<and> q < c + scanLength E M c a \<longrightarrow>
             isPortReachable w (length (connections st) + nat (q - c)) q h tmo \<noteq> Inr False))"
proof (cases rule: findLoop_cases [of w S E M h tmo c a st])
  case (1 p st')
  from findLoop_Inr [OF 1 assms]
  have f: "isNodeEnvironment w" "c \<le> p" "p \<le> E" "of_int (a + (p - c)) < M"
    "isPortReachable w (length (connections st) + nat (p - c)) p h tmo = Inr False"
    by blast+
  from f(4) have "a + (p - c) < \<lceil>M\<rceil>" by (simp only: less_ceiling_iff)
  with f(2,3) have "p < c + scanLength E M c a" by (simp add: scanLength_def)
  with f(1,2,5) 1 show ?thesis by auto
next
  case (2 e st')
  from findLoop_Inl [OF 2 assms] 2 show ?thesis by auto
qed

lemma loopHead_invariant:
  "loopHead w S E M h tmo st0 c a st \<Longrightarrow> c = S + a"
  by (induction rule: loopHead.induct) simp_all

lemma loopHead_findLoop:
  "loopHead w S E M h tmo st0 c a st \<Longrightarrow>
   findLoop w S E M h tmo c a st = findLoop w S E M h tmo S 0 st0"
proof (induction rule: loopHead.induct)
  case enter
  show ?case by simp
next
  case (not_available c a st st')
  have "findLoop w S E M h tmo c a st = findLoop w S E M h tmo (c + 1) (a + 1) st'"
    using not_available.hyps(2,3) by (subst findLoop.simps) simp
  with not_available.IH show ?case by simp
next
  case (caught c a st e st')
  have "findLoop w S E M h tmo c a st
        = findLoop w S E M h tmo (c + 1) (a + 1) (console_warn c e st')"
    using caught.hyps(2,3) by (subst findLoop.simps) simp
  with caught.IH show ?case by simp
qed

lemma findAvailablePort_valid:
  "1 \<le> orDefault 3000 (startPort options) \<Longrightarrow>
   orDefault 3000 (startPort options) \<le> orDefault 65535 (endPort options) \<Longrightarrow>
   orDefault 65535 (endPort options) \<le> 65535 \<Longrightarrow>
   findAvailablePort w options st =
     findLoop w (orDefault 3000 (startPort options)) (orDefault 65535 (endPort options))
       (orDefault 100 (maxTries options)) (orDefault ''localhost'' (host options))
       (orDefault 5000 (timeout options)) (orDefault 3000 (startPort options)) 0 st"
  by (simp add: findAvailablePort_def validatePort_def Let_def)

lemma findAvailablePort_Inr_valid:
  assumes "findAvailablePort w options st = (Inr p, st')"
  shows "1 \<le> orDefault 3000 (startPort options)
       \<and> orDefault 3000 (startPort options) \<le> orDefault 65535 (endPort options)
       \<and> orDefault 65535 (endPort options) \<le> 65535"
  using assms
  by (simp add: findAvailablePort_def validatePort_def Let_def split: if_splits)

lemma findAvailablePort_exhausted_valid:
  assumes "findAvailablePort w options st = (Inl (PortError (NoAvailablePort x y k) po ho), st')"
  shows "1 \<le> orDefault 3000 (startPort options)
       \<and> orDefault 3000 (startPort options) \<le> orDefault 65535 (endPort options)
       \<and> orDefault 65535 (endPort options) \<le> 65535"
  using assms
  by (simp add: findAvailablePort_def validatePort_def Let_def split: if_splits)

lemma scan_run:
  "findAvailablePort scanWorld
      \<lparr>host = None, timeout = None, startPort = Some 8000, endPort = Some 8100, maxTries = None\<rparr>
      noEffects
   = (Inr 8002,
      \<lparr>probed = [8000, 8001, 8002],
       connections = [(8000, ''localhost'', 5000), (8001, ''localhost'', 5000),
                      (8002, ''localhost'', 5000)],
       warnings = [(8000, PortError (FailedToCheck 8000 ''localhost'' ''EACCES'')
                            (Some 8000) (Some ''localhost''))],
       clockReads = 0, sleeps = [], now = 60\<rparr>)"
  by (simp add: findAvailablePort_def validatePort_def orDefault_def findLoop.simps
        isPortAvailable_def isPortInUse_def assertNodeEnvironment_def scanWorld_def
        noEffects_def console_warn_def errorMessage_def Let_def)

lemma exhaust_run:
  "findAvailablePort scanWorld
      \<lparr>host = None, timeout = None, startPort = Some 8001, endPort = Some 8003, maxTries = Some 1\<rparr>
      noEffects
   = (Inl (PortError (NoAvailablePort 8001 8003 1) None (Some ''localhost'')),
      \<lparr>probed = [8001], connections = [(8001, ''localhost'', 5000)],
       warnings = [], clockReads = 0, sleeps = [], now = 20\<rparr>)"
  by (simp add: findAvailablePort_def validatePort_def orDefault_def findLoop.simps
        isPortAvailable_def isPortInUse_def assertNodeEnvironment_def scanWorld_def
        noEffects_def console_warn_def errorMessage_def Let_def)

lemma exhaust_run2:
  "findAvailablePort scanWorld
      \<lparr>host = None, timeout = None, startPort = Some 8000, endPort = Some 8001, maxTries = None\<rparr>
      noEffects
   = (Inl (PortError (NoAvailablePort 8000 8001 2) None (Some ''localhost'')),
      \<lparr>probed = [8000, 8001],
       connections = [(8000, ''localhost'', 5000), (8001, ''localhost'', 5000)],
       warnings = [(8000, PortError (FailedToCheck 8000 ''localhost'' ''EACCES'')
                            (Some 8000) (Some ''localhost''))],
       clockReads = 0, sleeps = [], now = 40\<rparr>)"
  by (simp add: findAvailablePort_def validatePort_def orDefault_def findLoop.simps
        isPortAvailable_def isPortInUse_def assertNodeEnvironment_def scanWorld_def
        noEffects_def console_warn_def errorMessage_def Let_def)

lemma head_run:
  "loopHead scanWorld 8000 8100 100 ''localhost'' 5000 noEffects 8001 1
     \<lparr>probed = [8000], connections = [(8000, ''localhost'', 5000)],
      warnings = [(8000, PortError (FailedToCheck 8000 ''localhost'' ''EACCES'')
                            (Some 8000) (Some ''localhost''))],
      clockReads = 0, sleeps = [], now = 20\<rparr>"
proof -
  have "loopHead scanWorld 8000 8100 100 ''localhost'' 5000 noEffects (8000 + 1) (0 + 1)
     (console_warn 8000 (PortError (FailedToCheck 8000 ''localhost'' ''EACCES'')
                            (Some 8000) (Some ''localhost''))
        \<lparr>probed = [8000], connections = [(8000, ''localhost'', 5000)],
         warnings = [], clockReads = 0, sleeps = [], now = 20\<rparr>)"
    by (rule loopHead.caught [OF loopHead.enter])
       (simp_all add: isPortAvailable_def isPortInUse_def assertNodeEnvironment_def
          validatePort_def scanWorld_def noEffects_def orDefault_def errorMessage_def Let_def)
  then show ?thesis by (simp add: console_warn_def)
qed

text \<open>
  C3. When \<^verbatim>\<open>findAvailablePort\<close> succeeds with port \<open>p\<close>, then \<open>p\<close> lies between the
  start port \<open>S\<close> and the end port \<open>E\<close>; the ports probed are exactly \<open>S, S + 1, \<dots>, p\<close> in
  this order, one connection attempt each; the attempt on \<open>p\<close> found it free, and no
  earlier attempt did, whether it found the port in use or failed with an error. So the
  cursor advances by one on every attempt, an erroring probe counts as not free, and the
  port returned is the first one observed free.
\<close>

theorem findAvailablePort_returns_first_free:
  assumes "findAvailablePort w options st = (Inr p, st')"
  defines "S \<equiv> orDefault 3000 (startPort options)"
    and "E \<equiv> orDefault 65535 (endPort options)"
    and "h \<equiv> orDefault ''localhost'' (host options)"
    and "tmo \<equiv> orDefault 5000 (timeout options)"
  shows "S \<le> p \<and> p \<le> E
       \<and> probed st' = probed st @ [S..p]
       \<and> connections st' = connections st @ map (\<lambda>q. (q, h, tmo)) [S..p]
       \<and> isPortReachable w (length (connections st) + nat (p - S)) p h tmo = Inr False
       \<and> (\<forall>q. S \<le> q \<and> q < p \<longrightarrow>
             isPortReachable w (length (connections st) + nat (q - S)) q h tmo \<noteq> Inr False)"
proof -
  from findAvailablePort_Inr_valid [OF assms(1)]
  have v: "1 \<le> S" "S \<le> E" "E \<le> 65535" unfolding S_def E_def by simp_all
  from findAvailablePort_valid [of options w st] v assms(1)
  have "findLoop w S E (orDefault 100 (maxTries options)) h tmo S 0 st = (Inr p, st')"
    unfolding S_def E_def h_def tmo_def by simp
  from findLoop_Inr [OF this v(1,3)] show ?thesis by blast
qed

theorem findAvailablePort_returns_first_free_witness:
  "findAvailablePort scanWorld
      \<lparr>host = None, timeout = None, startPort = Some 8000, endPort = Some 8100, maxTries = None\<rparr>
      noEffects
   = (Inr 8002,
      \<lparr>probed = [8000, 8001, 8002],
       connections = [(8000, ''localhost'', 5000), (8001, ''localhost'', 5000),
                      (8002, ''localhost'', 5000)],
       warnings = [(8000, PortError (FailedToCheck 8000 ''localhost'' ''EACCES'')
                            (Some 8000) (Some ''localhost''))],
       clockReads = 0, sleeps = [], now = 60\<rparr>)
   \<and> (8000::int) \<le> 8002 \<and> (8002::int) \<le> 8100
   \<and> [8000, 8001, 8002] = probed noEffects @ [8000..8002]
   \<and> isPortReachable scanWorld (length (connections noEffects) + nat (8002 - 8000)) 8002
        ''localhost'' 5000 = Inr False
   \<and> isPortReachable scanWorld (length (connections noEffects) + nat (8000 - 8000)) 8000
        ''localhost'' 5000 \<noteq> Inr False
   \<and> isPortReachable scanWorld (length (connections noEffects) + nat (8001 - 8000)) 8001
        ''localhost'' 5000 \<noteq> Inr False"
  using findAvailablePort_returns_first_free [OF scan_run] scan_run
  by (simp add: orDefault_def noEffects_def scanWorld_def)

text \<open>
  C4. For valid bounds \<open>S \<le> E\<close>, \<^verbatim>\<open>findAvailablePort\<close> fails exactly when none of the
  first \<open>n\<close> attempts observes a free port, where \<open>n\<close> is the number of ports in the range
  or \<^verbatim>\<open>maxTries\<close> (rounded up if it is not integral), whichever is smaller: after \<open>n\<close>
  attempts the cursor has passed the end port or the attempts have reached the cap, and
  not before. The failure is the exhaustion
  error, which reports the range and the attempt count \<open>n\<close>. With \<^verbatim>\<open>maxTries = 1\<close> at most
  one probe is made.
\<close>

theorem findAvailablePort_exhaustion:
  fixes options :: "'a FindPortOptions_scheme"
  defines "S \<equiv> orDefault 3000 (startPort options)"
    and "E \<equiv> orDefault 65535 (endPort options)"
    and "M \<equiv> orDefault 100 (maxTries options)"
    and "h \<equiv> orDefault ''localhost'' (host options)"
    and "tmo \<equiv> orDefault 5000 (timeout options)"
  assumes "1 \<le> S" and "S \<le> E" and "E \<le> 65535"
  defines "n \<equiv> scanLength E M S 0"
  shows "((\<exists>e. fst (findAvailablePort w options st) = Inl e) \<longleftrightarrow>
            (isNodeEnvironment w \<longrightarrow> (\<forall>q. S \<le> q \<and> q < S + n \<longrightarrow>
               isPortReachable w (length (connections st) + nat (q - S)) q h tmo \<noteq> Inr False)))
       \<and> (\<forall>e. fst (findAvailablePort w options st) = Inl e \<longrightarrow>
             e = PortError (NoAvailablePort S E n) None (Some h))
       \<and> (E < S + n \<or> M \<le> of_int n)
       \<and> (\<forall>i. 0 \<le> i \<and> i < n \<longrightarrow> S + i \<le> E \<and> of_int i < M)
       \<and> (M = 1 \<longrightarrow>
             length (probed (snd (findAvailablePort w options st))) \<le> length (probed st) + 1
           \<and> length (connections (snd (findAvailablePort w options st)))
                \<le> length (connections st) + 1)"
proof -
  have run: "findAvailablePort w options st = findLoop w S E M h tmo S 0 st"
    using findAvailablePort_valid [of options w st] assms(6,7,8)
    unfolding S_def E_def M_def h_def tmo_def by simp
  have iff: "(\<exists>e. fst (findAvailablePort w options st) = Inl e) \<longleftrightarrow>
            (isNodeEnvironment w \<longrightarrow> (\<forall>q. S \<le> q \<and> q < S + n \<longrightarrow>
               isPortReachable w (length (connections st) + nat (q - S)) q h tmo \<noteq> Inr False))"
    unfolding run n_def by (rule findLoop_Inl_iff [OF assms(6,8)])
  have err: "e = PortError (NoAvailablePort S E n) None (Some h)"
    if "fst (findAvailablePort w options st) = Inl e" for e
  proof -
    from that obtain st' where "findLoop w S E M h tmo S 0 st = (Inl e, st')"
      unfolding run by (cases "findLoop w S E M h tmo S 0 st") auto
    from findLoop_Inl [OF this assms(6,8)] show ?thesis unfolding n_def by simp
  qed
  have bound: "E < S + n \<or> M \<le> of_int n"
    unfolding n_def scanLength_def using le_of_int_ceiling [of M]
    by (auto simp: max_def min_def split: if_splits)
  have first: "\<forall>i. 0 \<le> i \<and> i < n \<longrightarrow> S + i \<le> E \<and> of_int i < M"
    unfolding n_def scanLength_def by (auto simp: less_ceiling_iff [symmetric])
  have one: "length (probed (snd (findAvailablePort w options st))) \<le> length (probed st) + 1
           \<and> length (connections (snd (findAvailablePort w options st)))
                \<le> length (connections st) + 1" if "M = 1"
  proof (cases rule: findLoop_cases [of w S E M h tmo S 0 st])
    case (1 p st')
    from findLoop_Inr [OF 1 assms(6,8)] that have "p = S"
      "probed st' = probed st @ [S..p]"
      "connections st' = connections st @ map (\<lambda>q. (q, h, tmo)) [S..p]"
      by auto
    with 1 show ?thesis unfolding run by simp
  next
    case (2 e st')
    have "scanLength E M S 0 = 1" using that assms(7) by (simp add: scanLength_def)
    with findLoop_Inl [OF 2 assms(6,8)] 2 show ?thesis unfolding run by simp
  qed
  from iff err bound first one show ?thesis by blast
qed

theorem findAvailablePort_exhaustion_witness:
  "(1::int) \<le> 8001 \<and> (8001::int) \<le> 8003 \<and> (8003::int) \<le> 65535
   \<and> scanLength 8003 1 8001 0 = 1
   \<and> isNodeEnvironment scanWorld
   \<and> isPortReachable scanWorld (length (connections noEffects) + nat (8001 - 8001)) 8001
        ''localhost'' 5000 \<noteq> Inr False
   \<and> findAvailablePort scanWorld
        \<lparr>host = None, timeout = None, startPort = Some 8001, endPort = Some 8003,
         maxTries = Some 1\<rparr> noEffects
      = (Inl (PortError (NoAvailablePort 8001 8003 1) None (Some ''localhost'')),
         \<lparr>probed = [8001], connections = [(8001, ''localhost'', 5000)],
          warnings = [], clockReads = 0, sleeps = [], now = 20\<rparr>)"
  using findAvailablePort_exhaustion [of
      "\<lparr>host = None, timeout = None, startPort = Some 8001, endPort = Some 8003,
        maxTries = Some 1\<rparr>" scanWorld noEffects] exhaust_run
  by (simp add: orDefault_def noEffects_def scanLength_def scanWorld_def)

text \<open>
  C10 as stated fails: \<^verbatim>\<open>maxTries\<close> is not validated, and with \<^verbatim>\<open>maxTries = 1.5\<close> the loop
  makes two attempts. With port 8001 in use and port 8002 free the scan from 8001 returns
  8002, which is above \<open>startPort + maxTries - 1 = 8001.5\<close>.
\<close>

theorem fractional_maxTries_exceeds_bound:
  "findAvailablePort scanWorld
      \<lparr>host = None, timeout = None, startPort = Some 8001, endPort = Some 8100,
       maxTries = Some (3 / 2)\<rparr> noEffects
   = (Inr 8002,
      \<lparr>probed = [8001, 8002],
       connections = [(8001, ''localhost'', 5000), (8002, ''localhost'', 5000)],
       warnings = [], clockReads = 0, sleeps = [], now = 40\<rparr>)
   \<and> \<not> ((8002::rat) \<le> 8001 + 3 / 2 - 1)"
  by (simp add: findAvailablePort_def validatePort_def orDefault_def findLoop.simps
        isPortAvailable_def isPortInUse_def assertNodeEnvironment_def scanWorld_def
        noEffects_def console_warn_def errorMessage_def Let_def)

text \<open>
  C10, amended. At every head of the scan loop the cursor equals the start port plus the
  attempt count (and the loop continued from there yields the result of the whole scan).
  Hence a port \<open>p\<close> returned lies below \<open>S + maxTries\<close>, that is, it is at most \<open>S\<close> plus
  \<^verbatim>\<open>maxTries\<close> rounded up minus 1, which for an integral \<^verbatim>\<open>maxTries\<close> is the bound
  \<open>p \<le> S + maxTries - 1\<close>. The attempt count reported by the exhaustion error is the
  number of ports the probe was invoked on, which in a Node.js runtime is also the number
  of connection attempts made.
\<close>

theorem findAvailablePort_cursor_invariant:
  fixes options :: "'a FindPortOptions_scheme"
  defines "S \<equiv> orDefault 3000 (startPort options)"
    and "E \<equiv> orDefault 65535 (endPort options)"
    and "M \<equiv> orDefault 100 (maxTries options)"
    and "h \<equiv> orDefault ''localhost'' (host options)"
    and "tmo \<equiv> orDefault 5000 (timeout options)"
  shows "(loopHead w S E M h tmo st currentPort attempts st1 \<longrightarrow>
            currentPort = S + attempts
          \<and> findLoop w S E M h tmo currentPort attempts st1 = findLoop w S E M h tmo S 0 st)
       \<and> (findAvailablePort w options st = (Inr p, st') \<longrightarrow>
            of_int p < of_int S + M \<and> p \<le> S + \<lceil>M\<rceil> - 1
          \<and> (M \<in> \<int> \<longrightarrow> of_int p \<le> of_int S + M - 1))
       \<and> (findAvailablePort w options st
             = (Inl (PortError (NoAvailablePort x y k) po ho), st') \<longrightarrow>
            int (length (probed st')) = int (length (probed st)) + k
          \<and> (isNodeEnvironment w \<longrightarrow>
               int (length (connections st')) = int (length (connections st)) + k))"
proof -
  have inv: "currentPort = S + attempts
          \<and> findLoop w S E M h tmo currentPort attempts st1 = findLoop w S E M h tmo S 0 st"
    if "loopHead w S E M h tmo st currentPort attempts st1"
    using loopHead_invariant [OF that] loopHead_findLoop [OF that] by simp
  have ok: "of_int p < of_int S + M \<and> p \<le> S + \<lceil>M\<rceil> - 1
          \<and> (M \<in> \<int> \<longrightarrow> of_int p \<le> of_int S + M - 1)"
    if r: "findAvailablePort w options st = (Inr p, st')"
  proof -
    from findAvailablePort_Inr_valid [OF r]
    have v: "1 \<le> S" "S \<le> E" "E \<le> 65535" unfolding S_def E_def by simp_all
    from findAvailablePort_valid [of options w st] v r
    have "findLoop w S E M h tmo S 0 st = (Inr p, st')"
      unfolding S_def E_def M_def h_def tmo_def by simp
    from findLoop_Inr [OF this v(1,3)] have lt: "of_int (p - S) < M" by simp
    then have below: "of_int p < of_int S + M" by simp
    from lt have "p - S < \<lceil>M\<rceil>" by (simp only: less_ceiling_iff)
    then have up: "p \<le> S + \<lceil>M\<rceil> - 1" by simp
    have "of_int p \<le> of_int S + M - 1" if "M \<in> \<int>"
    proof -
      from that obtain m where m: "M = of_int m" by (auto elim: Ints_cases)
      with up have "p \<le> S + m - 1" by simp
      then have "(of_int p :: rat) \<le> of_int (S + m - 1)" by (simp only: of_int_le_iff)
      then show ?thesis unfolding m by simp
    qed
    with below up show ?thesis by blast
  qed
  have bad: "int (length (probed st')) = int (length (probed st)) + k
          \<and> (isNodeEnvironment w \<longrightarrow>
               int (length (connections st')) = int (length (connections st)) + k)"
    if r: "findAvailablePort w options st = (Inl (PortError (NoAvailablePort x y k) po ho), st')"
  proof -
    from findAvailablePort_exhausted_valid [OF r]
    have v: "1 \<le> S" "S \<le> E" "E \<le> 65535" unfolding S_def E_def by simp_all
    from findAvailablePort_valid [of options w st] v r
    have "findLoop w S E M h tmo S 0 st
            = (Inl (PortError (NoAvailablePort x y k) po ho), st')"
      unfolding S_def E_def M_def h_def tmo_def by simp
    from findLoop_Inl [OF this v(1,3)]
    have k: "k = scanLength E M S 0"
      and p: "probed st' = probed st @ [S..S + scanLength E M S 0 - 1]"
      and c: "isNodeEnvironment w \<Longrightarrow> connections st' = connections st @
                map (\<lambda>q. (q, h, tmo)) [S..S + scanLength E M S 0 - 1]"
      by simp_all
    have "0 \<le> k" unfolding k by (rule scanLength_nonneg)
    with p c k show ?thesis by simp
  qed
  from inv ok bad show ?thesis by blast
qed

theorem findAvailablePort_cursor_invariant_witness:
  "loopHead scanWorld 8000 8100 100 ''localhost'' 5000 noEffects 8001 1
     \<lparr>probed = [8000], connections = [(8000, ''localhost'', 5000)],
      warnings = [(8000, PortError (FailedToCheck 8000 ''localhost'' ''EACCES'')
                            (Some 8000) (Some ''localhost''))],
      clockReads = 0, sleeps = [], now = 20\<rparr>
   \<and> (8001::int) = 8000 + 1
   \<and> fst (findAvailablePort scanWorld
        \<lparr>host = None, timeout = None, startPort = Some 8000, endPort = Some 8100,
         maxTries = None\<rparr> noEffects) = Inr 8002
   \<and> (8002::rat) < 8000 + 100 \<and> (8002::int) \<le> 8000 + \<lceil>100::rat\<rceil> - 1
   \<and> (100::rat) \<in> \<int> \<and> (8002::rat) \<le> 8000 + 100 - 1
   \<and> isNodeEnvironment scanWorld
   \<and> fst (findAvailablePort scanWorld
        \<lparr>host = None, timeout = None, startPort = Some 8000, endPort = Some 8001,
         maxTries = None\<rparr> noEffects)
      = Inl (PortError (NoAvailablePort 8000 8001 2) None (Some ''localhost''))
   \<and> length (probed (snd (findAvailablePort scanWorld
        \<lparr>host = None, timeout = None, startPort = Some 8000, endPort = Some 8001,
         maxTries = None\<rparr> noEffects))) = 2
   \<and> length (connections (snd (findAvailablePort scanWorld
        \<lparr>host = None, timeout = None, startPort = Some 8000, endPort = Some 8001,
         maxTries = None\<rparr> noEffects))) = 2"
  using findAvailablePort_cursor_invariant [where w = scanWorld
      and options = "\<lparr>host = None, timeout = None, startPort = Some 8000, endPort = Some 8100,
        maxTries = None\<rparr>" and st = noEffects and currentPort = 8001 and attempts = 1
      and ?st1.0 = "\<lparr>probed = [8000], connections = [(8000, ''localhost'', 5000)],
          warnings = [(8000, PortError (FailedToCheck 8000 ''localhost'' ''EACCES'')
                            (Some 8000) (Some ''localhost''))],
          clockReads = 0, sleeps = [], now = 20\<rparr>" and p = 8002]
    findAvailablePort_cursor_invariant [where w = scanWorld
      and options = "\<lparr>host = None, timeout = None, startPort = Some 8000, endPort = Some 8001,
        maxTries = None\<rparr>" and st = noEffects and x = 8000 and y = 8001 and k = 2
      and po = None and ho = "Some ''localhost''"]
    head_run scan_run exhaust_run2
  by (simp add: orDefault_def scanWorld_def noEffects_def)

section \<open>The batch prober\<close>

lemma forEach_validatePort_valid:
  "\<forall>p\<in>set ports. 1 \<le> p \<and> p \<le> 65535 \<Longrightarrow> forEach_validatePort ports = Inr ()"
  by (induction ports) (simp_all add: validatePort_def)

lemma forEach_validatePort_invalid:
  "find (\<lambda>p. p < 1 \<or> 65535 < p) ports = Some q \<Longrightarrow>
   forEach_validatePort ports = Inl (PortError (InvalidPortNumber q) (Some q) None)"
  by (induction ports) (auto simp: validatePort_def split: if_splits)

lemma checks_outside_node:
  "\<not> isNodeEnvironment w \<Longrightarrow>
   checks w ports opts st =
     (map (\<lambda>p. (p, False)) ports,
      st\<lparr>probed := probed st @ ports,
         warnings := warnings st @ map (\<lambda>p. (p, EnvironmentError)) ports\<rparr>)"
  by (induction ports arbitrary: st)
     (simp_all add: isPortAvailable_outside_node console_warn_def)

lemma checks_node:
  "isNodeEnvironment w \<Longrightarrow> \<forall>p\<in>set ports. 1 \<le> p \<and> p \<le> 65535 \<Longrightarrow>
   fst (checks w ports opts st) =
     map (\<lambda>(k, p). (p, observedAvailable w opts k p)) (enumerate (length (connections st)) ports)
   \<and> probed (snd (checks w ports opts st)) = probed st @ ports
   \<and> connections (snd (checks w ports opts st)) = connections st @
        map (\<lambda>p. (p, orDefault ''localhost'' (host opts), orDefault 5000 (timeout opts))) ports"
proof (induction ports arbitrary: st)
  case Nil
  show ?case by simp
next
  case (Cons p ports)
  then have v: "1 \<le> p" "p \<le> 65535" and vs: "\<forall>p\<in>set ports. 1 \<le> p \<and> p \<le> 65535"
    by simp_all
  note step = isPortAvailable_node [OF Cons.prems(1) v, of opts st]
  show ?case
  proof (cases "isPortReachable w (length (connections st)) p
             (orDefault ''localhost'' (host opts)) (orDefault 5000 (timeout opts))")
    case (Inl err)
    with step Cons.IH [OF Cons.prems(1) vs] Cons.prems(1) show ?thesis
      by (simp add: console_warn_def observedAvailable_def case_prod_beta)
  next
    case (Inr reachable)
    with step Cons.IH [OF Cons.prems(1) vs] Cons.prems(1) show ?thesis
      by (simp add: observedAvailable_def case_prod_beta)
  qed
qed

lemma checks_result:
  assumes "\<forall>p\<in>set ports. 1 \<le> p \<and> p \<le> 65535"
  shows "fst (checks w ports opts st) =
     map (\<lambda>(k, p). (p, observedAvailable w opts k p)) (enumerate (length (connections st)) ports)"
proof (cases "isNodeEnvironment w")
  case True
  from checks_node [OF True assms, of opts st] show ?thesis by (rule conjunct1)
next
  case False
  have "map (\<lambda>(k, p). (p, observedAvailable w opts k p)) (enumerate n ports)
        = map (\<lambda>p. (p, False)) ports" for n
    using False by (induction ports arbitrary: n) (simp_all add: observedAvailable_def)
  then show ?thesis by (simp add: checks_outside_node [OF False])
qed

lemma setAll_snoc: "setAll (rs @ [(p, v)]) m = (setAll rs m)(p \<mapsto> v)"
  by (simp add: setAll_def)

lemma setAll_Cons: "setAll ((p, v) # rs) m = setAll rs (m(p \<mapsto> v))"
  by (simp add: setAll_def)

lemma dom_setAll: "dom (setAll rs m) = dom m \<union> fst ` set rs"
proof (induction rs arbitrary: m)
  case Nil
  show ?case by (simp add: setAll_def)
next
  case (Cons r rs)
  obtain p v where r: "r = (p, v)" by (cases r)
  show ?case unfolding r setAll_Cons Cons.IH by simp
qed

lemma setAll_last_wins:
  "i < length rs \<Longrightarrow> fst (rs ! i) \<notin> fst ` set (drop (Suc i) rs) \<Longrightarrow>
   setAll rs m (fst (rs ! i)) = Some (snd (rs ! i))"
proof (induction rs arbitrary: i rule: rev_induct)
  case Nil
  then show ?case by simp
next
  case (snoc r rs)
  obtain p v where r: "r = (p, v)" by (cases r)
  show ?case
  proof (cases "i < length rs")
    case True
    with snoc.prems(2) have "fst (rs ! i) \<notin> fst ` set (drop (Suc i) rs)" "fst (rs ! i) \<noteq> p"
      by (auto simp: nth_append r)
    with snoc.IH [OF True] True show ?thesis
      by (simp add: r setAll_snoc nth_append)
  next
    case False
    with snoc.prems(1) have "i = length rs" by simp
    then show ?thesis by (simp add: r setAll_snoc)
  qed
qed

lemma checks_ports:
  assumes "\<forall>p\<in>set ports. 1 \<le> p \<and> p \<le> 65535"
  shows "map fst (fst (checks w ports opts st)) = ports"
  unfolding checks_result [OF assms]
  by (simp add: case_prod_beta comp_def)

lemma checks_nth:
  assumes "\<forall>p\<in>set ports. 1 \<le> p \<and> p \<le> 65535" and "i < length ports"
  shows "fst (checks w ports opts st) ! i
         = (ports ! i, observedAvailable w opts (length (connections st) + i) (ports ! i))"
  unfolding checks_result [OF assms(1)] using assms(2)
  by (simp add: nth_enumerate_eq)

lemma checks_probed:
  assumes "\<forall>p\<in>set ports. 1 \<le> p \<and> p \<le> 65535"
  shows "probed (snd (checks w ports opts st)) = probed st @ ports"
proof (cases "isNodeEnvironment w")
  case True
  from checks_node [OF True assms, of opts st] show ?thesis by blast
next
  case False
  show ?thesis by (simp add: checks_outside_node [OF False])
qed

lemma checkMultiplePorts_valid:
  assumes "\<forall>p\<in>set ports. 1 \<le> p \<and> p \<le> 65535"
  shows "checkMultiplePorts w ports opts st
         = (Inr (setAll (fst (checks w ports opts st)) Map.empty), snd (checks w ports opts st))"
  by (simp add: checkMultiplePorts_def forEach_validatePort_valid [OF assms] case_prod_beta)

lemma batch_run2:
  "checkMultiplePorts scanWorld [8000, 8001, 8002] \<lparr>host = None, timeout = None\<rparr> noEffects
   = (Inr [8000 \<mapsto> False, 8001 \<mapsto> False, 8002 \<mapsto> True],
      \<lparr>probed = [8000, 8001, 8002],
       connections = [(8000, ''localhost'', 5000), (8001, ''localhost'', 5000),
                      (8002, ''localhost'', 5000)],
       warnings = [(8000, PortError (FailedToCheck 8000 ''localhost'' ''EACCES'')
                            (Some 8000) (Some ''localhost''))],
       clockReads = 0, sleeps = [], now = 20\<rparr>)"
  by (simp add: checkMultiplePorts_def validatePort_def setAll_def isPortAvailable_def
        isPortInUse_def assertNodeEnvironment_def scanWorld_def noEffects_def orDefault_def
        console_warn_def errorMessage_def Let_def)

text \<open>
  C7. For a list of valid ports, duplicates allowed, \<^verbatim>\<open>checkMultiplePorts\<close> returns a
  mapping whose key set is the set of the input ports: one entry for each distinct port.
\<close>

theorem checkMultiplePorts_keys:
  assumes "\<forall>p\<in>set ports. 1 \<le> p \<and> p \<le> 65535"
  shows "\<exists>m st'. checkMultiplePorts w ports options st = (Inr m, st') \<and> dom m = set ports"
proof -
  have "fst ` set (fst (checks w ports options st)) = set (map fst (fst (checks w ports options st)))"
    by simp
  also have "\<dots> = set ports" unfolding checks_ports [OF assms] ..
  finally have "dom (setAll (fst (checks w ports options st)) Map.empty) = set ports"
    by (simp add: dom_setAll)
  with checkMultiplePorts_valid [OF assms] show ?thesis by blast
qed

theorem checkMultiplePorts_keys_witness:
  "(1::int) \<le> 3000 \<and> (3000::int) \<le> 65535 \<and> (1::int) \<le> 4000 \<and> (4000::int) \<le> 65535
   \<and> (\<exists>m st'. checkMultiplePorts scanWorld [3000, 3000, 4000]
                  \<lparr>host = None, timeout = None\<rparr> noEffects = (Inr m, st')
         \<and> dom m = {3000, 4000} \<and> card (dom m) = 2)"
proof -
  have v: "\<forall>p\<in>set [3000, 3000, 4000]. (1::int) \<le> p \<and> p \<le> 65535" by simp
  from checkMultiplePorts_keys [OF v, of scanWorld "\<lparr>host = None, timeout = None\<rparr>" noEffects]
  obtain m st' where r: "checkMultiplePorts scanWorld [3000, 3000, 4000]
                  \<lparr>host = None, timeout = None\<rparr> noEffects = (Inr m, st')"
    and d: "dom m = set [3000, 3000, 4000]" by blast
  from d have "dom m = {3000, 4000}" "card (dom m) = 2" by simp_all
  with r show ?thesis by auto
qed

text \<open>
  C6. If some port of the list is invalid, \<^verbatim>\<open>checkMultiplePorts\<close> rejects the whole
  batch with the validation error of the first invalid port and has done nothing else: no
  probe was invoked and no connection attempted, also for the valid ports before it. If
  all ports are valid the batch never fails: every port is probed, in a Node.js runtime
  with one connection attempt each, a check whose probe fails (outside Node.js, or with an
  error of the connection attempt) is recorded as \<open>False\<close>, and the mapping holds for
  every port the record of its last check (duplicates collapse to one key).
\<close>

theorem checkMultiplePorts_validates_first:
  fixes options :: "'a PortCheckOptions_scheme"
  defines "h \<equiv> orDefault ''localhost'' (host options)"
    and "tmo \<equiv> orDefault 5000 (timeout options)"
  shows "(find (\<lambda>p. p < 1 \<or> 65535 < p) ports = Some q \<longrightarrow>
            checkMultiplePorts w ports options st
              = (Inl (PortError (InvalidPortNumber q) (Some q) None), st))
       \<and> ((\<forall>p\<in>set ports. 1 \<le> p \<and> p \<le> 65535) \<longrightarrow>
            (\<exists>m st'. checkMultiplePorts w ports options st = (Inr m, st')
               \<and> probed st' = probed st @ ports
               \<and> (isNodeEnvironment w \<longrightarrow>
                    connections st' = connections st @ map (\<lambda>p. (p, h, tmo)) ports)
               \<and> (\<forall>i<length ports. ports ! i \<notin> set (drop (Suc i) ports) \<longrightarrow>
                    ((\<not> isNodeEnvironment w
                      \<or> (\<exists>err. isPortReachable w (length (connections st) + i) (ports ! i) h tmo
                                  = Inl err)) \<longrightarrow> m (ports ! i) = Some False)
                  \<and> (isNodeEnvironment w \<longrightarrow>
                       (\<forall>r. isPortReachable w (length (connections st) + i) (ports ! i) h tmo
                               = Inr r \<longrightarrow> m (ports ! i) = Some (\<not> r))))
               \<and> (\<forall>i<length ports.
                    (\<not> isNodeEnvironment w
                     \<or> (\<exists>err. isPortReachable w (length (connections st) + i) (ports ! i) h tmo
                                 = Inl err)) \<longrightarrow>
                    fst (checks w ports options st) ! i = (ports ! i, False))))"
proof -
  have bad: "checkMultiplePorts w ports options st
              = (Inl (PortError (InvalidPortNumber q) (Some q) None), st)"
    if "find (\<lambda>p. p < 1 \<or> 65535 < p) ports = Some q"
    by (simp add: checkMultiplePorts_def forEach_validatePort_invalid [OF that])
  have good: "\<exists>m st'. checkMultiplePorts w ports options st = (Inr m, st')
               \<and> probed st' = probed st @ ports
               \<and> (isNodeEnvironment w \<longrightarrow>
                    connections st' = connections st @ map (\<lambda>p. (p, h, tmo)) ports)
               \<and> (\<forall>i<length ports. ports ! i \<notin> set (drop (Suc i) ports) \<longrightarrow>
                    ((\<not> isNodeEnvironment w
                      \<or> (\<exists>err. isPortReachable w (length (connections st) + i) (ports ! i) h tmo
                                  = Inl err)) \<longrightarrow> m (ports ! i) = Some False)
                  \<and> (isNodeEnvironment w \<longrightarrow>
                       (\<forall>r. isPortReachable w (length (connections st) + i) (ports ! i) h tmo
                               = Inr r \<longrightarrow> m (ports ! i) = Some (\<not> r))))
               \<and> (\<forall>i<length ports.
                    (\<not> isNodeEnvironment w
                     \<or> (\<exists>err. isPortReachable w (length (connections st) + i) (ports ! i) h tmo
                                 = Inl err)) \<longrightarrow>
                    fst (checks w ports options st) ! i = (ports ! i, False))"
    if v: "\<forall>p\<in>set ports. 1 \<le> p \<and> p \<le> 65535"
  proof -
    define rs where "rs = fst (checks w ports options st)"
    define m where "m = setAll rs Map.empty"
    define st' where "st' = snd (checks w ports options st)"
    have run: "checkMultiplePorts w ports options st = (Inr m, st')"
      unfolding m_def rs_def st'_def by (rule checkMultiplePorts_valid [OF v])
    have p: "probed st' = probed st @ ports"
      unfolding st'_def by (rule checks_probed [OF v])
    have c: "connections st' = connections st @ map (\<lambda>p. (p, h, tmo)) ports"
      if "isNodeEnvironment w"
      using checks_node [OF that v, of options st] unfolding st'_def h_def tmo_def by blast
    have len: "length rs = length ports"
      using checks_ports [OF v, of w options st] unfolding rs_def
      by (metis length_map)
    have entry: "m (ports ! i)
                 = Some (observedAvailable w options (length (connections st) + i) (ports ! i))"
      if i: "i < length ports" and last: "ports ! i \<notin> set (drop (Suc i) ports)" for i
    proof -
      have nth: "rs ! i
           = (ports ! i, observedAvailable w options (length (connections st) + i) (ports ! i))"
        unfolding rs_def by (rule checks_nth [OF v i])
      have "fst ` set (drop (Suc i) rs) = set (drop (Suc i) (map fst rs))"
        by (simp add: drop_map)
      also have "map fst rs = ports" unfolding rs_def by (rule checks_ports [OF v])
      finally have "fst (rs ! i) \<notin> fst ` set (drop (Suc i) rs)" using last nth by simp
      from setAll_last_wins [OF _ this, of Map.empty] i len nth show ?thesis
        unfolding m_def by simp
    qed
    have each: "((\<not> isNodeEnvironment w
                      \<or> (\<exists>err. isPortReachable w (length (connections st) + i) (ports ! i) h tmo
                                  = Inl err)) \<longrightarrow> m (ports ! i) = Some False)
                  \<and> (isNodeEnvironment w \<longrightarrow>
                       (\<forall>r. isPortReachable w (length (connections st) + i) (ports ! i) h tmo
                               = Inr r \<longrightarrow> m (ports ! i) = Some (\<not> r)))"
      if "i < length ports" and "ports ! i \<notin> set (drop (Suc i) ports)" for i
      unfolding entry [OF that] observedAvailable_def h_def tmo_def by auto
    have recorded: "fst (checks w ports options st) ! i = (ports ! i, False)"
      if "i < length ports"
        and "\<not> isNodeEnvironment w
             \<or> (\<exists>err. isPortReachable w (length (connections st) + i) (ports ! i) h tmo = Inl err)"
      for i
      using that(2) unfolding checks_nth [OF v that(1)] observedAvailable_def h_def tmo_def
      by auto
    from run p c each recorded show ?thesis by blast
  qed
  from bad good show ?thesis by blast
qed

theorem checkMultiplePorts_validates_first_witness:
  "find (\<lambda>p. p < 1 \<or> 65535 < p) [3000, 70000] = Some (70000::int)
   \<and> checkMultiplePorts scanWorld [3000, 70000] \<lparr>host = None, timeout = None\<rparr> noEffects
       = (Inl (PortError (InvalidPortNumber 70000) (Some 70000) None), noEffects)
   \<and> (1::int) \<le> 8000 \<and> (8000::int) \<le> 65535 \<and> (1::int) \<le> 8001 \<and> (8001::int) \<le> 65535
   \<and> (1::int) \<le> 8002 \<and> (8002::int) \<le> 65535
   \<and> isNodeEnvironment scanWorld
   \<and> (0::nat) < length [8000, 8001, 8002::int]
   \<and> [8000, 8001, 8002::int] ! 0 \<notin> set (drop (Suc 0) [8000, 8001, 8002])
   \<and> isPortReachable scanWorld (length (connections noEffects) + 0) ([8000, 8001, 8002] ! 0)
        ''localhost'' 5000 = Inl (JsError ''EACCES'')
   \<and> isPortReachable scanWorld (length (connections noEffects) + 1) ([8000, 8001, 8002] ! 1)
        ''localhost'' 5000 = Inr True
   \<and> fst (checks scanWorld [8000, 8001, 8002] \<lparr>host = None, timeout = None\<rparr> noEffects) ! 0
        = (8000, False)
   \<and> (\<exists>m st'. checkMultiplePorts scanWorld [8000, 8001, 8002]
                  \<lparr>host = None, timeout = None\<rparr> noEffects = (Inr m, st')
         \<and> m 8000 = Some False \<and> m 8001 = Some False \<and> m 8002 = Some True
         \<and> probed st' = [8000, 8001, 8002]
         \<and> connections st' = [(8000, ''localhost'', 5000), (8001, ''localhost'', 5000),
                               (8002, ''localhost'', 5000)])"
  using checkMultiplePorts_validates_first [where w = scanWorld and ports = "[3000, 70000]"
      and q = 70000 and options = "\<lparr>host = None, timeout = None\<rparr>" and st = noEffects]
    checkMultiplePorts_validates_first [where w = scanWorld and ports = "[8000, 8001, 8002]"
      and options = "\<lparr>host = None, timeout = None\<rparr>" and st = noEffects]
    batch_run2
  by (simp add: scanWorld_def noEffects_def orDefault_def)

section \<open>The port watcher\<close>

text \<open>
  In a world whose connection attempts settle no later than their timeout, a call of the
  probe moves the clock by at most the timeout of its options; where no attempt takes
  negative time, it does not move the clock back.
\<close>

lemma isPortInUse_now_upper:
  assumes "\<forall>k p a t. probeTime w k p a t \<le> max 0 t"
  shows "now (snd (isPortInUse w p \<lparr>host = Some h, timeout = Some tmo\<rparr> st)) \<le> now st + max 0 tmo"
proof -
  from assms have "probeTime w (length (connections st)) p h tmo \<le> max 0 tmo" by blast
  with isPortInUse_now [of w p "\<lparr>host = Some h, timeout = Some tmo\<rparr>" st]
  show ?thesis by (auto simp: orDefault_def)
qed

lemma isPortInUse_now_lower:
  assumes "\<forall>k p a t. 0 \<le> probeTime w k p a t"
  shows "now st \<le> now (snd (isPortInUse w p opts st))"
proof -
  from assms
  have "0 \<le> probeTime w (length (connections st)) p
               (orDefault ''localhost'' (host opts)) (orDefault 5000 (timeout opts))" by blast
  with isPortInUse_now [of w p opts st] show ?thesis by auto
qed

lemma waitLoop_result:
  assumes "waitLoop w port targetState h tmo poll overall startTime st = Some y"
  shows "waitLoopPost w port targetState h tmo poll overall startTime st y"
proof (rule waitLoop.raw_induct [where P = "\<lambda>w port targetState h tmo poll overall startTime st y.
          waitLoopPost w port targetState h tmo poll overall startTime st y", OF _ assms],
       goal_cases)
  case (1 waitLoop w port targetState h tmo poll overall startTime st y)
  let ?timely = "(\<forall>k p a t. probeTime w k p a t \<le> max 0 t) \<and> (\<forall>k d. timerTime w k d \<le> max 0 d)"
  let ?B = "overall + max 0 poll + max 0 tmo"
  show ?case
  proof (cases "now st - startTime < overall")
    case False
    with 1(2) show ?thesis by (auto simp: waitLoopPost_def)
  next
    case before: True
    let ?st1 = "st\<lparr>clockReads := Suc (clockReads st)\<rparr>"
    obtain r st2 where step: "isPortInUse w port \<lparr>host = Some h, timeout = Some tmo\<rparr> ?st1 = (r, st2)"
      by (cases "isPortInUse w port \<lparr>host = Some h, timeout = Some tmo\<rparr> ?st1")
    have t2: "now st2 \<le> now st + max 0 tmo" if ?timely
      using isPortInUse_now_upper [of w port h tmo ?st1] that step by simp
    have rec: ?thesis
      if call: "waitLoop w port targetState h tmo poll overall startTime st3 = Some y"
        and t3: "?timely \<Longrightarrow> now st3 \<le> now st + max 0 tmo + max 0 poll" for st3
    proof -
      from 1(1) [OF call, unfolded waitLoopPost_def]
      have ih: "\<forall>st'. y = (Inr (), st') \<longrightarrow>
            isNodeEnvironment w \<and> connections st' \<noteq> []
          \<and> last (connections st') = (port, h, tmo)
          \<and> isPortReachable w (length (connections st') - 1) port h tmo
              = Inr (targetState = InUse)"
        and ih2: "\<forall>e st'. y = (Inl e, st') \<longrightarrow>
            e = PortError (TimeoutWaiting port targetState overall) (Some port) (Some h)
          \<and> overall \<le> now st' - startTime
          \<and> (?timely \<longrightarrow> now st' - startTime \<le> max (now st3 - startTime) ?B)"
        by blast+
      have "\<forall>e st'. y = (Inl e, st') \<longrightarrow>
            e = PortError (TimeoutWaiting port targetState overall) (Some port) (Some h)
          \<and> overall \<le> now st' - startTime
          \<and> (?timely \<longrightarrow> now st' - startTime \<le> max (now st - startTime) ?B)"
      proof (intro allI impI conjI)
        fix e st' assume y: "y = (Inl e, st')"
        with ih2 show "e = PortError (TimeoutWaiting port targetState overall) (Some port) (Some h)"
          and "overall \<le> now st' - startTime" by blast+
        assume timely: ?timely
        with ih2 y have "now st' - startTime \<le> max (now st3 - startTime) ?B" by blast
        moreover from t3 [OF timely] before have "now st3 - startTime \<le> ?B" by simp
        ultimately show "now st' - startTime \<le> max (now st - startTime) ?B" by simp
      qed
      with ih show ?thesis unfolding waitLoopPost_def by blast
    qed
    have sleep: "now (setTimeout w poll st4) \<le> now st + max 0 tmo + max 0 poll"
      if ?timely and "now st4 = now st2" for st4
    proof -
      from that(1) have "timerTime w (length (sleeps st4)) poll \<le> max 0 poll" by blast
      with t2 [OF that(1)] that(2) show ?thesis by (simp add: setTimeout_def)
    qed
    show ?thesis
    proof (cases r)
      case (Inl e)
      with 1(2) before step
      have "waitLoop w port targetState h tmo poll overall startTime
              (setTimeout w poll (console_warn port e st2)) = Some y" by simp
      then show ?thesis
        by (rule rec) (rule sleep, simp_all add: console_warn_def)
    next
      case (Inr inUse)
      from isPortInUse_Inr [OF step [unfolded Inr]]
      have obs: "isNodeEnvironment w"
        "isPortReachable w (length (connections ?st1)) port h tmo = Inr inUse"
        "st2 = ?st1\<lparr>probed := probed ?st1 @ [port],
                    connections := connections ?st1 @ [(port, h, tmo)],
                    now := now ?st1 + probeTime w (length (connections ?st1)) port h tmo\<rparr>"
        by blast+
      show ?thesis
      proof (cases "(if inUse then InUse else Available) = targetState")
        case True
        with 1(2) before step Inr have y: "y = (Inr (), st2)" by simp
        from True have "inUse = (targetState = InUse)" by (auto split: if_splits)
        with obs y show ?thesis by (simp add: waitLoopPost_def)
      next
        case False
        with 1(2) before step Inr
        have "waitLoop w port targetState h tmo poll overall startTime (setTimeout w poll st2)
                = Some y" by simp
        then show ?thesis by (rule rec) (rule sleep, simp_all)
      qed
    qed
  qed
qed

text \<open>
  The loop returns when every iteration moves the clock on: the poll interval is
  positive, a timer fires no earlier than its delay and no attempt takes negative time.
\<close>

lemma waitLoop_returns:
  assumes "0 < poll" and "\<forall>k p a t. 0 \<le> probeTime w k p a t" and "\<forall>k d. d \<le> timerTime w k d"
  shows "waitLoop w port targetState h tmo poll overall startTime st \<noteq> None"
proof (induction "nat (overall + startTime - now st)" arbitrary: st rule: less_induct)
  case less
  show ?case
  proof (cases "now st - startTime < overall")
    case False
    then show ?thesis by (subst waitLoop.simps) simp
  next
    case before: True
    let ?st1 = "st\<lparr>clockReads := Suc (clockReads st)\<rparr>"
    obtain r st2 where step: "isPortInUse w port \<lparr>host = Some h, timeout = Some tmo\<rparr> ?st1 = (r, st2)"
      by (cases "isPortInUse w port \<lparr>host = Some h, timeout = Some tmo\<rparr> ?st1")
    have t2: "now st \<le> now st2"
      using isPortInUse_now_lower [OF assms(2), of ?st1 port "\<lparr>host = Some h, timeout = Some tmo\<rparr>"]
        step by simp
    have rec: "waitLoop w port targetState h tmo poll overall startTime (setTimeout w poll st4)
                 \<noteq> None"
      if "now st4 = now st2" for st4
    proof (rule less.hyps)
      from assms(3) have "poll \<le> timerTime w (length (sleeps st4)) poll" by blast
      with assms(1) t2 that have "now st < now (setTimeout w poll st4)"
        by (simp add: setTimeout_def)
      with before
      show "nat (overall + startTime - now (setTimeout w poll st4))
            < nat (overall + startTime - now st)" by simp
    qed
    show ?thesis
    proof (cases r)
      case (Inl e)
      have "now (console_warn port e st2) = now st2" by (simp add: console_warn_def)
      from rec [OF this] before step Inl show ?thesis by (subst waitLoop.simps) simp
    next
      case (Inr inUse)
      from rec [of st2] before step Inr show ?thesis by (subst waitLoop.simps) simp
    qed
  qed
qed

lemma wait_success_run:
  "waitForPort pollWorld 3000 InUse
     \<lparr>host = None, timeout = None, pollInterval = None, overallTimeout = None\<rparr> noEffects
   = Some (Inr (),
       \<lparr>probed = [3000, 3000],
        connections = [(3000, ''localhost'', 5000), (3000, ''localhost'', 5000)],
        warnings = [], clockReads = 3, sleeps = [1000], now = 1400\<rparr>)"
  by (simp add: waitForPort_def validatePort_def orDefault_def waitLoop.simps
        isPortInUse_def assertNodeEnvironment_def pollWorld_def noEffects_def
        console_warn_def setTimeout_def Let_def)

lemma wait_timeout_run:
  "waitForPort pollWorld 4000 Available
     \<lparr>host = None, timeout = None, pollInterval = None, overallTimeout = Some 2000\<rparr> noEffects
   = Some (Inl (PortError (TimeoutWaiting 4000 Available 2000) (Some 4000) (Some ''localhost'')),
       \<lparr>probed = [4000, 4000],
        connections = [(4000, ''localhost'', 5000), (4000, ''localhost'', 5000)],
        warnings = [], clockReads = 4, sleeps = [1000, 1000], now = 2400\<rparr>)"
  by (simp add: waitForPort_def validatePort_def orDefault_def waitLoop.simps
        isPortInUse_def assertNodeEnvironment_def pollWorld_def noEffects_def
        console_warn_def setTimeout_def Let_def)

text \<open>
  C5. Time passes while a connection attempt or a timer is awaited. For a valid port,
  \<^verbatim>\<open>waitForPort\<close> returns normally only straight after a connection attempt of its own
  that observed the target state. Any failure is the timeout error naming the port,
  the target state and the deadline, and it is raised when at least \<^verbatim>\<open>overallTimeout\<close> has
  elapsed since the call started. In a world where a connection attempt settles no later
  than the timeout handed to it and a timer fires no later than the delay handed to it,
  and for non-negative \<^verbatim>\<open>overallTimeout\<close>, \<^verbatim>\<open>pollInterval\<close> and \<^verbatim>\<open>timeout\<close>, the error is raised
  no later than \<^verbatim>\<open>overallTimeout + pollInterval + timeout\<close> after the start: the deadline
  is tested before each poll, and a poll that has begun is followed to its end. If the
  poll interval is positive, a timer fires no earlier than its delay and no attempt takes
  negative time, the call returns.
\<close>

theorem waitForPort_outcome:
  fixes options :: "'a WaitOptions_scheme"
  defines "h \<equiv> orDefault ''localhost'' (host options)"
    and "tmo \<equiv> orDefault 5000 (timeout options)"
    and "poll \<equiv> orDefault 1000 (pollInterval options)"
    and "overall \<equiv> orDefault 30000 (overallTimeout options)"
  assumes "1 \<le> port" and "port \<le> 65535"
  shows "(waitForPort w port targetState options st = Some (Inr (), st') \<longrightarrow>
            isNodeEnvironment w \<and> connections st' \<noteq> []
          \<and> last (connections st') = (port, h, tmo)
          \<and> isPortReachable w (length (connections st') - 1) port h tmo
               = Inr (targetState = InUse))
       \<and> (waitForPort w port targetState options st = Some (Inl e, st') \<longrightarrow>
            e = PortError (TimeoutWaiting port targetState overall) (Some port) (Some h)
          \<and> overall \<le> now st' - now st
          \<and> (0 \<le> overall \<and> 0 \<le> poll \<and> 0 \<le> tmo
              \<and> (\<forall>k p a t. probeTime w k p a t \<le> max 0 t)
              \<and> (\<forall>k d. timerTime w k d \<le> max 0 d) \<longrightarrow>
                now st' - now st \<le> overall + poll + tmo))
       \<and> (0 < poll \<and> (\<forall>k p a t. 0 \<le> probeTime w k p a t) \<and> (\<forall>k d. d \<le> timerTime w k d) \<longrightarrow>
            waitForPort w port targetState options st \<noteq> None)"
proof -
  let ?st1 = "st\<lparr>clockReads := Suc (clockReads st)\<rparr>"
  have run: "waitForPort w port targetState options st
             = waitLoop w port targetState h tmo poll overall (now st) ?st1"
    using assms(5,6)
    by (simp add: waitForPort_def validatePort_def Let_def h_def tmo_def poll_def overall_def)
  have ok: "isNodeEnvironment w \<and> connections st' \<noteq> []
          \<and> last (connections st') = (port, h, tmo)
          \<and> isPortReachable w (length (connections st') - 1) port h tmo
               = Inr (targetState = InUse)"
    if "waitForPort w port targetState options st = Some (Inr (), st')"
    using waitLoop_result [OF that [unfolded run]] unfolding waitLoopPost_def by blast
  have late: "e = PortError (TimeoutWaiting port targetState overall) (Some port) (Some h)
          \<and> overall \<le> now st' - now st
          \<and> (0 \<le> overall \<and> 0 \<le> poll \<and> 0 \<le> tmo
              \<and> (\<forall>k p a t. probeTime w k p a t \<le> max 0 t)
              \<and> (\<forall>k d. timerTime w k d \<le> max 0 d) \<longrightarrow>
                now st' - now st \<le> overall + poll + tmo)"
    if r: "waitForPort w port targetState options st = Some (Inl e, st')"
  proof -
    from waitLoop_result [OF r [unfolded run]]
    have e: "e = PortError (TimeoutWaiting port targetState overall) (Some port) (Some h)"
      and lo: "overall \<le> now st' - now st"
      and hi: "(\<forall>k p a t. probeTime w k p a t \<le> max 0 t) \<and> (\<forall>k d. timerTime w k d \<le> max 0 d)
               \<longrightarrow> now st' - now st
                     \<le> max (now ?st1 - now st) (overall + max 0 poll + max 0 tmo)"
      unfolding waitLoopPost_def by blast+
    from hi have "now st' - now st \<le> overall + poll + tmo"
      if "0 \<le> overall \<and> 0 \<le> poll \<and> 0 \<le> tmo
              \<and> (\<forall>k p a t. probeTime w k p a t \<le> max 0 t)
              \<and> (\<forall>k d. timerTime w k d \<le> max 0 d)"
      using that by (simp add: max_def)
    with e lo show ?thesis by blast
  qed
  have fin: "waitForPort w port targetState options st \<noteq> None"
    if "0 < poll \<and> (\<forall>k p a t. 0 \<le> probeTime w k p a t) \<and> (\<forall>k d. d \<le> timerTime w k d)"
    unfolding run using that by (intro waitLoop_returns) blast+
  from ok late fin show ?thesis by blast
qed

theorem waitForPort_outcome_witness:
  "(1::int) \<le> 3000 \<and> (3000::int) \<le> 65535
   \<and> waitForPort pollWorld 3000 InUse
        \<lparr>host = None, timeout = None, pollInterval = None, overallTimeout = None\<rparr> noEffects
      = Some (Inr (),
          \<lparr>probed = [3000, 3000],
           connections = [(3000, ''localhost'', 5000), (3000, ''localhost'', 5000)],
           warnings = [], clockReads = 3, sleeps = [1000], now = 1400\<rparr>)
   \<and> isNodeEnvironment pollWorld
   \<and> isPortReachable pollWorld 1 3000 ''localhost'' 5000 = Inr (InUse = InUse)
   \<and> (1::int) \<le> 4000 \<and> (4000::int) \<le> 65535
   \<and> waitForPort pollWorld 4000 Available
        \<lparr>host = None, timeout = None, pollInterval = None, overallTimeout = Some 2000\<rparr>
        noEffects
      = Some (Inl (PortError (TimeoutWaiting 4000 Available 2000) (Some 4000)
                     (Some ''localhost'')),
          \<lparr>probed = [4000, 4000],
           connections = [(4000, ''localhost'', 5000), (4000, ''localhost'', 5000)],
           warnings = [], clockReads = 4, sleeps = [1000, 1000], now = 2400\<rparr>)
   \<and> (0::int) \<le> 2000 \<and> (0::int) < 1000 \<and> (0::int) \<le> 5000
   \<and> (\<forall>k p a t. probeTime pollWorld k p a t \<le> max 0 t)
   \<and> (\<forall>k d. timerTime pollWorld k d \<le> max 0 d)
   \<and> (\<forall>k p a t. 0 \<le> probeTime pollWorld k p a t)
   \<and> (\<forall>k d. d \<le> timerTime pollWorld k d)
   \<and> (2000::int) \<le> 2400 - now noEffects
   \<and> 2400 - now noEffects \<le> (2000::int) + 1000 + 5000"
proof -
  have contract: "(\<forall>k p a t. probeTime pollWorld k p a t \<le> max 0 t)
     \<and> (\<forall>k d. timerTime pollWorld k d \<le> max 0 d)
     \<and> (\<forall>k p a t. 0 \<le> probeTime pollWorld k p a t)
     \<and> (\<forall>k d. d \<le> timerTime pollWorld k d)"
    by (simp add: pollWorld_def)
  from waitForPort_outcome [where w = pollWorld and port = 3000 and targetState = InUse
      and options = "\<lparr>host = None, timeout = None, pollInterval = None, overallTimeout = None\<rparr>"
      and st = noEffects]
    waitForPort_outcome [where w = pollWorld and port = 4000 and targetState = Available
      and options = "\<lparr>host = None, timeout = None, pollInterval = None,
                      overallTimeout = Some 2000\<rparr>"
      and st = noEffects]
    wait_success_run wait_timeout_run contract
  show ?thesis by (simp add: orDefault_def noEffects_def pollWorld_def)
qed

section \<open>The environment guard and the validation of the input\<close>

text \<open>
  Outside Node.js, for every valid input: the batch prober returns a mapping of
  \<open>False\<close>, the scanner fails with the exhaustion error, and the watcher, if it returns,
  fails with the timeout error.
\<close>

lemma checkMultiplePorts_outside_node:
  assumes "\<not> isNodeEnvironment w" and "\<forall>p\<in>set ports. 1 \<le> p \<and> p \<le> 65535"
  shows "checkMultiplePorts w ports options st
         = (Inr (setAll (map (\<lambda>p. (p, False)) ports) Map.empty),
            st\<lparr>probed := probed st @ ports,
               warnings := warnings st @ map (\<lambda>p. (p, EnvironmentError)) ports\<rparr>)"
  by (simp add: checkMultiplePorts_valid [OF assms(2)] checks_outside_node [OF assms(1)])

lemma findAvailablePort_outside_node:
  fixes options :: "'a FindPortOptions_scheme"
  defines "S \<equiv> orDefault 3000 (startPort options)"
    and "E \<equiv> orDefault 65535 (endPort options)"
    and "M \<equiv> orDefault 100 (maxTries options)"
    and "h \<equiv> orDefault ''localhost'' (host options)"
  assumes "\<not> isNodeEnvironment w" and "1 \<le> S" and "S \<le> E" and "E \<le> 65535"
  shows "fst (findAvailablePort w options st)
           = Inl (PortError (NoAvailablePort S E (scanLength E M S 0)) None (Some h))
       \<and> connections (snd (findAvailablePort w options st)) = connections st"
proof -
  let ?tmo = "orDefault 5000 (timeout options)"
  have run: "findAvailablePort w options st = findLoop w S E M h ?tmo S 0 st"
    using findAvailablePort_valid [of options w st] assms(6,7,8)
    unfolding S_def E_def M_def h_def by simp
  show ?thesis
  proof (cases rule: findLoop_cases [of w S E M h ?tmo S 0 st])
    case (1 p st')
    from findLoop_Inr [OF 1 assms(6,8)] assms(5) show ?thesis by simp
  next
    case (2 e st')
    from findLoop_Inl [OF 2 assms(6,8)] assms(5) 2 show ?thesis unfolding run by simp
  qed
qed

lemma waitForPort_outside_node:
  assumes "\<not> isNodeEnvironment w" and "1 \<le> port" and "port \<le> 65535"
    and "waitForPort w port targetState options st = Some (r, st')"
  shows "r = Inl (PortError (TimeoutWaiting port targetState
                    (orDefault 30000 (overallTimeout options))) (Some port)
                    (Some (orDefault ''localhost'' (host options))))"
proof -
  from assms(2,3,4)
  have "waitLoop w port targetState (orDefault ''localhost'' (host options))
          (orDefault 5000 (timeout options)) (orDefault 1000 (pollInterval options))
          (orDefault 30000 (overallTimeout options)) (now st)
          (st\<lparr>clockReads := Suc (clockReads st)\<rparr>) = Some (r, st')"
    by (simp add: waitForPort_def validatePort_def Let_def)
  from waitLoop_result [OF this] assms(1) show ?thesis
    unfolding waitLoopPost_def by (cases r) auto
qed

text \<open>
  C1, at the failing inputs. Outside Node.js only \<^verbatim>\<open>isPortInUse\<close> and
  \<^verbatim>\<open>isPortAvailable\<close> raise the environment error. The other three operations call them
  inside a \<^verbatim>\<open>try\<close> block whose \<^verbatim>\<open>catch\<close> takes every error for a failed check: the batch
  prober returns a mapping with \<open>False\<close>, the scanner fails with the exhaustion error and
  the watcher with the timeout error. No connection is attempted in any of them.
\<close>

theorem environment_error_swallowed_outside_node:
  "checkMultiplePorts browserWorld [3000] \<lparr>host = None, timeout = None\<rparr> noEffects
     = (Inr [3000 \<mapsto> False],
        \<lparr>probed = [3000], connections = [], warnings = [(3000, EnvironmentError)],
         clockReads = 0, sleeps = [], now = 0\<rparr>)
   \<and> findAvailablePort browserWorld
        \<lparr>host = None, timeout = None, startPort = Some 3000, endPort = Some 3001,
         maxTries = None\<rparr> noEffects
     = (Inl (PortError (NoAvailablePort 3000 3001 2) None (Some ''localhost'')),
        \<lparr>probed = [3000, 3001], connections = [],
         warnings = [(3000, EnvironmentError), (3001, EnvironmentError)],
         clockReads = 0, sleeps = [], now = 0\<rparr>)
   \<and> waitForPort browserWorld 3000 InUse
        \<lparr>host = None, timeout = None, pollInterval = None, overallTimeout = Some 2000\<rparr>
        noEffects
     = Some (Inl (PortError (TimeoutWaiting 3000 InUse 2000) (Some 3000) (Some ''localhost'')),
        \<lparr>probed = [3000, 3000], connections = [],
         warnings = [(3000, EnvironmentError), (3000, EnvironmentError)],
         clockReads = 4, sleeps = [1000, 1000], now = 2000\<rparr>)"
  by (simp add: checkMultiplePorts_def findAvailablePort_def waitForPort_def validatePort_def
        orDefault_def findLoop.simps waitLoop.simps setAll_def isPortAvailable_def
        isPortInUse_def assertNodeEnvironment_def browserWorld_def noEffects_def
        console_warn_def setTimeout_def Let_def)

text \<open>
  C2 as stated fails: a non-positive \<^verbatim>\<open>timeout\<close> or \<^verbatim>\<open>pollInterval\<close> is not rejected,
  the connection attempt is made with it.
\<close>

theorem nonpositive_counters_not_rejected:
  "isPortInUse pollWorld 3000 \<lparr>host = None, timeout = Some 0\<rparr> noEffects
     = (Inr False,
        \<lparr>probed = [3000], connections = [(3000, ''localhost'', 0)], warnings = [],
         clockReads = 0, sleeps = [], now = 0\<rparr>)
   \<and> waitForPort pollWorld 3000 Available
        \<lparr>host = None, timeout = None, pollInterval = Some (- 5), overallTimeout = None\<rparr>
        noEffects
     = Some (Inr (),
        \<lparr>probed = [3000], connections = [(3000, ''localhost'', 5000)], warnings = [],
         clockReads = 2, sleeps = [], now = 200\<rparr>)"
  by (simp add: waitForPort_def validatePort_def orDefault_def waitLoop.simps
        isPortInUse_def assertNodeEnvironment_def pollWorld_def noEffects_def
        console_warn_def setTimeout_def Let_def)

text \<open>
  C2, amended. An out-of-range port is rejected before any connection attempt, warning,
  clock reading or timer: by \<^verbatim>\<open>waitForPort\<close>, \<^verbatim>\<open>checkMultiplePorts\<close> and
  \<^verbatim>\<open>findAvailablePort\<close> (start port, then end port) with the validation error, and by
  \<^verbatim>\<open>isPortInUse\<close> and \<^verbatim>\<open>isPortAvailable\<close> with the validation error in a Node.js runtime
  and the environment error outside it. \<^verbatim>\<open>findAvailablePort\<close> rejects a start port above the
  end port in the same way. The counters are not validated.
\<close>

theorem malformed_port_rejected_before_io:
  fixes fopts :: "'a FindPortOptions_scheme"
    and options :: "'b PortCheckOptions_scheme"
    and wopts :: "'c WaitOptions_scheme"
  defines "S \<equiv> orDefault 3000 (startPort fopts)"
    and "E \<equiv> orDefault 65535 (endPort fopts)"
  shows "((port < 1 \<or> 65535 < port) \<longrightarrow>
            isPortInUse w port options st
              = (Inl (if isNodeEnvironment w
                      then PortError (InvalidPortNumber port) (Some port) None
                      else EnvironmentError), st\<lparr>probed := probed st @ [port]\<rparr>)
          \<and> isPortAvailable w port options st
              = (Inl (if isNodeEnvironment w
                      then PortError (InvalidPortNumber port) (Some port) None
                      else EnvironmentError), st\<lparr>probed := probed st @ [port]\<rparr>)
          \<and> waitForPort w port targetState wopts st
              = Some (Inl (PortError (InvalidPortNumber port) (Some port) None), st))
       \<and> (find (\<lambda>p. p < 1 \<or> 65535 < p) ports = Some q \<longrightarrow>
            checkMultiplePorts w ports options st
              = (Inl (PortError (InvalidPortNumber q) (Some q) None), st))
       \<and> ((S < 1 \<or> 65535 < S) \<longrightarrow>
            findAvailablePort w fopts st
              = (Inl (PortError (InvalidPortNumber S) (Some S) None), st))
       \<and> (1 \<le> S \<and> S \<le> 65535 \<and> (E < 1 \<or> 65535 < E) \<longrightarrow>
            findAvailablePort w fopts st
              = (Inl (PortError (InvalidPortNumber E) (Some E) None), st))
       \<and> (1 \<le> E \<and> E < S \<and> S \<le> 65535 \<longrightarrow>
            findAvailablePort w fopts st
              = (Inl (PortError (StartGreaterThanEnd S E) None None), st))"
proof -
  have single: "isPortInUse w port options st
              = (Inl (if isNodeEnvironment w
                      then PortError (InvalidPortNumber port) (Some port) None
                      else EnvironmentError), st\<lparr>probed := probed st @ [port]\<rparr>)"
    if "port < 1 \<or> 65535 < port"
    using that isPortInUse_invalid [of w port options st]
      isPortInUse_outside_node [of w port options st] by (cases "isNodeEnvironment w") simp_all
  have avail: "isPortAvailable w port options st
              = (Inl (if isNodeEnvironment w
                      then PortError (InvalidPortNumber port) (Some port) None
                      else EnvironmentError), st\<lparr>probed := probed st @ [port]\<rparr>)"
    if "port < 1 \<or> 65535 < port"
    unfolding isPortAvailable_def single [OF that] by simp
  have wait: "waitForPort w port targetState wopts st
              = Some (Inl (PortError (InvalidPortNumber port) (Some port) None), st)"
    if "port < 1 \<or> 65535 < port"
    using that by (auto simp: waitForPort_def validatePort_def)
  have batch: "checkMultiplePorts w ports options st
              = (Inl (PortError (InvalidPortNumber q) (Some q) None), st)"
    if "find (\<lambda>p. p < 1 \<or> 65535 < p) ports = Some q"
    by (simp add: checkMultiplePorts_def forEach_validatePort_invalid [OF that])
  have f1: "findAvailablePort w fopts st
              = (Inl (PortError (InvalidPortNumber S) (Some S) None), st)"
    if "S < 1 \<or> 65535 < S"
    using that by (auto simp: findAvailablePort_def validatePort_def Let_def S_def)
  have f2: "findAvailablePort w fopts st
              = (Inl (PortError (InvalidPortNumber E) (Some E) None), st)"
    if "1 \<le> S \<and> S \<le> 65535 \<and> (E < 1 \<or> 65535 < E)"
    using that by (auto simp: findAvailablePort_def validatePort_def Let_def S_def E_def)
  have f3: "findAvailablePort w fopts st
              = (Inl (PortError (StartGreaterThanEnd S E) None None), st)"
    if "1 \<le> E \<and> E < S \<and> S \<le> 65535"
    using that by (auto simp: findAvailablePort_def validatePort_def Let_def S_def E_def)
  from single avail wait batch f1 f2 f3 show ?thesis by blast
qed

theorem malformed_port_rejected_before_io_witness:
  "((0::int) < 1 \<or> (65535::int) < 0)
   \<and> isPortInUse pollWorld 0 \<lparr>host = None, timeout = None\<rparr> noEffects
       = (Inl (PortError (InvalidPortNumber 0) (Some 0) None),
          \<lparr>probed = [0], connections = [], warnings = [],
           clockReads = 0, sleeps = [], now = 0\<rparr>)
   \<and> isPortAvailable browserWorld 0 \<lparr>host = None, timeout = None\<rparr> noEffects
       = (Inl EnvironmentError,
          \<lparr>probed = [0], connections = [], warnings = [],
           clockReads = 0, sleeps = [], now = 0\<rparr>)
   \<and> waitForPort pollWorld 0 InUse
        \<lparr>host = None, timeout = None, pollInterval = None, overallTimeout = None\<rparr> noEffects
       = Some (Inl (PortError (InvalidPortNumber 0) (Some 0) None), noEffects)
   \<and> find (\<lambda>p. p < 1 \<or> 65535 < p) [3000, 70000] = Some (70000::int)
   \<and> checkMultiplePorts pollWorld [3000, 70000] \<lparr>host = None, timeout = None\<rparr> noEffects
       = (Inl (PortError (InvalidPortNumber 70000) (Some 70000) None), noEffects)
   \<and> findAvailablePort pollWorld
        \<lparr>host = None, timeout = None, startPort = Some 0, endPort = None, maxTries = None\<rparr>
        noEffects
       = (Inl (PortError (InvalidPortNumber 0) (Some 0) None), noEffects)
   \<and> findAvailablePort pollWorld
        \<lparr>host = None, timeout = None, startPort = None, endPort = Some 65536,
         maxTries = None\<rparr> noEffects
       = (Inl (PortError (InvalidPortNumber 65536) (Some 65536) None), noEffects)
   \<and> findAvailablePort pollWorld
        \<lparr>host = None, timeout = None, startPort = Some 100, endPort = Some 50,
         maxTries = None\<rparr> noEffects
       = (Inl (PortError (StartGreaterThanEnd 100 50) None None), noEffects)"
proof -
  note inst = malformed_port_rejected_before_io [where port = 0
      and options = "\<lparr>host = None, timeout = None\<rparr>" and st = noEffects
      and targetState = InUse and ports = "[3000, 70000]" and q = 70000
      and wopts = "\<lparr>host = None, timeout = None, pollInterval = None, overallTimeout = None\<rparr>"]
  note a = inst [where w = pollWorld
      and fopts = "\<lparr>host = None, timeout = None, startPort = Some 0, endPort = None,
                    maxTries = None\<rparr>"]
  note b = inst [where w = browserWorld
      and fopts = "\<lparr>host = None, timeout = None, startPort = None, endPort = Some 65536,
                    maxTries = None\<rparr>"]
  note c = inst [where w = pollWorld
      and fopts = "\<lparr>host = None, timeout = None, startPort = None, endPort = Some 65536,
                    maxTries = None\<rparr>"]
  note d = inst [where w = pollWorld
      and fopts = "\<lparr>host = None, timeout = None, startPort = Some 100, endPort = Some 50,
                    maxTries = None\<rparr>"]
  have e: "isNodeEnvironment pollWorld" "\<not> isNodeEnvironment browserWorld"
    by (simp_all add: pollWorld_def browserWorld_def)
  from a b c d e show ?thesis by (simp add: orDefault_def noEffects_def)
qed

end
